theory Spec2Isabelle
  imports Main "HOL-Library.Multiset"
begin

section \<open>The posts router of the backend (src/api/posts.js)\<close>

text \<open>
  The router maps each HTTP verb and path to one handler working on three collections of
  the document store (posts, users, follower lists) and on four notification helpers.
  A handler is modelled as a function from the store and the request's parameters to the
  store afterwards and the response sent. The schema files of the collections are not part
  of the sources at hand: the records below have the fields that the handlers read and
  write. A handler's \<open>catch\<close> branch is the response 500 with the message
  \<open>Server error\<close>; it is reached in the model wherever the handler's own code throws
  (a property read on \<open>null\<close> or \<open>undefined\<close>, \<open>JSON.parse\<close>, a rejected query).
  Writes to the store and the notification helpers are taken to succeed.

  Identifiers are strings, and \<open>toString()\<close> on a stored identifier is the identity.
  The argument \<open>userId\<close> is the identifier that the authentication middleware put on the
  request; it is the identifier of a user document at the time the token was issued. The
  arguments \<open>postId\<close> and \<open>commentId\<close> come from the URL and are any string: a query
  by identifier first casts the string to the collection's identifier type and is rejected
  where the cast fails. The cast belongs to the store's driver, not to the sources, and is
  the argument \<open>valid_id\<close> of every handler that looks a post up.
\<close>

subsection \<open>Documents\<close>

record like =
  like_user :: string

record save =
  save_user :: string

record comment =
  comment_id :: string
  comment_user :: string
  comment_text :: string
  comment_date :: int

record post =
  post_id :: string
  user :: string
  title :: string
  description :: string
  images :: "string list"
  liveDemo :: string
  sourceCode :: "string option"
  techStack :: "string list"
  likes :: "like list"
  saves :: "save list"
  comments :: "comment list"
  views :: int
  createdAt :: int

record user_doc =
  user_id :: string
  role :: string

record following_entry =
  following_user :: string

record follower_doc =
  follower_user :: string
  following :: "following_entry list"

text \<open>The calls made to the helpers of server-utils/notifications, in the order made.\<close>

datatype notification =
  NewLike string string string
  | RemoveLike string string string
  | NewComment string string string string string
  | RemoveComment string string string string

record store =
  posts :: "post list"
  users :: "user_doc list"
  followers :: "follower_doc list"
  notified :: "notification list"

subsection \<open>Responses\<close>

datatype json =
  Msg string
  | PostDoc post
  | PostPopulated post "user_doc option" "(comment \<times> user_doc option) list"
  | Page "(post \<times> user_doc option) list" "int option"
  | PostList "(post \<times> user_doc option) list"
  | LikeList "(like \<times> user_doc option) list"
  | CommentList "(comment \<times> user_doc option) list"

record response =
  status :: nat
  body :: json

definition respond :: "nat \<Rightarrow> json \<Rightarrow> response" where
  "respond s b = \<lparr>status = s, body = b\<rparr>"

definition server_error :: response where
  "server_error = respond 500 (Msg ''Server error'')"

definition post_not_found :: response where
  "post_not_found = respond 404 (Msg ''Post not found'')"

subsection \<open>Array methods of the language\<close>

text \<open>\<open>Array.prototype.findIndex\<close>: the first index whose element passes, or -1.\<close>

fun findIndex :: "('a \<Rightarrow> bool) \<Rightarrow> 'a list \<Rightarrow> int" where
  "findIndex P [] = - 1"
| "findIndex P (x # xs) =
     (if P x then 0
      else (let i = findIndex P xs in if i < 0 then - 1 else i + 1))"

text \<open>
  \<open>Array.prototype.splice(start, deleteCount)\<close>, as the array it leaves behind: a
  negative start counts from the end, and both arguments are clamped to the array.
\<close>

definition splice_js :: "int \<Rightarrow> int \<Rightarrow> 'a list \<Rightarrow> 'a list" where
  "splice_js start deleteCount xs =
     (let len = int (length xs);
          s = (if start < 0 then max (len + start) 0 else min start len);
          d = min (max deleteCount 0) (len - s)
      in take (nat s) xs @ drop (nat (s + d)) xs)"

definition unshift :: "'a \<Rightarrow> 'a list \<Rightarrow> 'a list" where
  "unshift x xs = x # xs"

subsection \<open>Query parameters\<close>

text \<open>
  A string of the language is a sequence of UTF-16 code units, here natural numbers. A query
  parameter is the string that \<open>parseInt\<close> converts its argument to, or \<open>None\<close> when the
  parameter is absent (\<open>undefined\<close>, which parses to NaN).

  \<open>parseInt(s, 10)\<close>: leading white space and line terminators are skipped (TAB, LF, VT,
  FF, CR, the space, U+00A0, U+1680, U+2000 to U+200A, U+2028, U+2029, U+202F, U+205F,
  U+3000 and U+FEFF), one sign is read, then the longest run of decimal digits; no digit
  gives NaN, here \<open>None\<close>. Numbers are integers in the model, which is what the language
  computes as long as they stay below \<open>2 ^ 53\<close>.
\<close>

type_synonym js_string = "nat list"

definition is_space :: "nat \<Rightarrow> bool" where
  "is_space c =
     (c \<in> set [0x09, 0x0A, 0x0B, 0x0C, 0x0D, 0x20, 0xA0, 0x1680, 0x2028, 0x2029, 0x202F,
                0x205F, 0x3000, 0xFEFF]
      \<or> (0x2000 \<le> c \<and> c \<le> 0x200A))"

definition is_digit :: "nat \<Rightarrow> bool" where
  "is_digit c = (0x30 \<le> c \<and> c \<le> 0x39)"

definition digit_value :: "nat \<Rightarrow> int" where
  "digit_value c = int c - 0x30"

definition digits_value :: "js_string \<Rightarrow> int" where
  "digits_value ds = foldl (\<lambda>acc c. acc * 10 + digit_value c) 0 ds"

definition parse_digits :: "js_string \<Rightarrow> int option" where
  "parse_digits s =
     (let ds = takeWhile is_digit s
      in if ds = [] then None else Some (digits_value ds))"

definition parseInt :: "js_string option \<Rightarrow> int option" where
  "parseInt q =
     (case q of
        None \<Rightarrow> None
      | Some s \<Rightarrow>
          (case dropWhile is_space s of
             [] \<Rightarrow> None
           | c # cs \<Rightarrow>
               if c = 0x2D then map_option uminus (parse_digits cs)
               else if c = 0x2B then parse_digits cs
               else parse_digits (c # cs)))"

text \<open>\<open>parseInt(q, 10) || d\<close>: NaN and 0 are falsy.\<close>

definition or_default :: "int option \<Rightarrow> int \<Rightarrow> int" where
  "or_default v d = (case v of None \<Rightarrow> d | Some n \<Rightarrow> if n = 0 then d else n)"

record page_query =
  page :: "js_string option"
  limit :: "js_string option"

subsection \<open>Queries on the collections\<close>

text \<open>
  \<open>Post.findById(id)\<close> casts the string to the identifier type of the collection and
  rejects with a cast error where that fails; otherwise it resolves to the document with
  that identifier or to \<open>null\<close>.
\<close>

datatype query_error = CastError

definition findById ::
  "(string \<Rightarrow> bool) \<Rightarrow> string \<Rightarrow> post list \<Rightarrow> query_error + post option" where
  "findById valid_id pid ps =
     (if valid_id pid then Inr (find (\<lambda>p. post_id p = pid) ps) else Inl CastError)"

definition findUserById :: "string \<Rightarrow> user_doc list \<Rightarrow> user_doc option" where
  "findUserById uid us = find (\<lambda>u. user_id u = uid) us"

text \<open>\<open>post.save()\<close> on a document that was read from the collection replaces it there.\<close>

definition save_doc :: "post \<Rightarrow> post list \<Rightarrow> post list" where
  "save_doc p ps = map (\<lambda>q. if post_id q = post_id p then p else q) ps"

definition remove_doc :: "post \<Rightarrow> post list \<Rightarrow> post list" where
  "remove_doc p ps = filter (\<lambda>q. post_id q \<noteq> post_id p) ps"

text \<open>
  \<open>find().skip(s).limit(l).sort({ createdAt: -1 })\<close>: the query sorts first, whatever
  the order of the builder's calls, then skips, then limits. The store rejects a negative
  skip; a limit of 0 is no limit and a negative limit is read as its absolute value.
\<close>

definition sort_createdAt_desc :: "post list \<Rightarrow> post list" where
  "sort_createdAt_desc ps = sort_key (\<lambda>p. - createdAt p) ps"

definition find_page :: "int \<Rightarrow> int \<Rightarrow> post list \<Rightarrow> post list option" where
  "find_page s l ps =
     (if s < 0 then None
      else let sorted_ps = drop (nat s) (sort_createdAt_desc ps)
           in Some (if l = 0 then sorted_ps else take (nat \<bar>l\<bar>) sorted_ps))"

definition populate_user :: "store \<Rightarrow> post \<Rightarrow> post \<times> user_doc option" where
  "populate_user st p = (p, findUserById (user p) (users st))"

definition populate_comments :: "store \<Rightarrow> comment list \<Rightarrow> (comment \<times> user_doc option) list" where
  "populate_comments st cs = map (\<lambda>c. (c, findUserById (comment_user c) (users st))) cs"

definition populate_likes :: "store \<Rightarrow> like list \<Rightarrow> (like \<times> user_doc option) list" where
  "populate_likes st ls = map (\<lambda>l. (l, findUserById (like_user l) (users st))) ls"

definition populate_page :: "store \<Rightarrow> post list \<Rightarrow> (post \<times> user_doc option) list" where
  "populate_page st ps = map (populate_user st) ps"

definition notify :: "notification \<Rightarrow> store \<Rightarrow> store" where
  "notify n st = st\<lparr>notified := notified st @ [n]\<rparr>"

subsection \<open>POST /api/posts\<close>

text \<open>
  The body's \<open>techStack\<close> goes through \<open>JSON.parse\<close>, the argument \<open>json_parse\<close>,
  which is \<open>None\<close> where it throws. The identifier and the creation time that the store
  gives a new document are the arguments \<open>new_id\<close> and \<open>now\<close>; a new document has no
  likes, saves or comments and no views.
\<close>

record create_body =
  body_title :: string
  body_description :: string
  body_liveDemo :: string
  body_sourceCode :: "string option"
  body_techStack :: string

record upload =
  file_path :: string

definition truthy :: "string option \<Rightarrow> bool" where
  "truthy v = (case v of None \<Rightarrow> False | Some s \<Rightarrow> s \<noteq> [])"

definition create_post ::
  "(string \<Rightarrow> string list option) \<Rightarrow> store \<Rightarrow> string \<Rightarrow> create_body \<Rightarrow> upload list
     \<Rightarrow> string \<Rightarrow> int \<Rightarrow> store \<times> response" where
  "create_post json_parse st userId b files new_id now =
     (if int (length files) < 1
      then (st, respond 400 (Msg ''Atleast one image is required''))
      else
        (case json_parse (body_techStack b) of
           None \<Rightarrow> (st, server_error)
         | Some ts \<Rightarrow>
             let postObj =
                   \<lparr>post_id = new_id, user = userId, title = body_title b,
                    description = body_description b, images = map file_path files,
                    liveDemo = body_liveDemo b,
                    sourceCode = (if truthy (body_sourceCode b) then body_sourceCode b else None),
                    techStack = ts, likes = [], saves = [], comments = [], views = 0,
                    createdAt = now\<rparr>
             in (st\<lparr>posts := posts st @ [postObj]\<rparr>, respond 201 (PostDoc postObj))))"

subsection \<open>GET /api/posts and GET /api/posts/feed\<close>

definition get_posts :: "store \<Rightarrow> page_query \<Rightarrow> store \<times> response" where
  "get_posts st q =
     (let page_n = or_default (parseInt (page q)) 1;
          limit_n = or_default (parseInt (limit q)) 12;
          startIndex = (page_n - 1) * limit_n;
          endIndex = page_n * limit_n;
          total = int (length (posts st))
      in case find_page startIndex limit_n (posts st) of
           None \<Rightarrow> (st, server_error)
         | Some ps \<Rightarrow>
             let next = (if endIndex < total then Some (page_n + 1) else None)
             in (st, respond 200 (Page (populate_page st ps) next)))"

definition get_feed :: "store \<Rightarrow> string \<Rightarrow> page_query \<Rightarrow> store \<times> response" where
  "get_feed st userId q =
     (let page_n = or_default (parseInt (page q)) 1;
          limit_n = or_default (parseInt (limit q)) 12;
          startIndex = (page_n - 1) * limit_n;
          endIndex = page_n * limit_n
      in case find (\<lambda>f. follower_user f = userId) (followers st) of
           None \<Rightarrow> (st, server_error)
         | Some fdoc \<Rightarrow>
             let followingUsers = map following_user (following fdoc);
                 matching = filter (\<lambda>p. user p \<in> set followingUsers) (posts st);
                 total = int (length matching)
             in (case find_page startIndex limit_n matching of
                   None \<Rightarrow> (st, server_error)
                 | Some ps \<Rightarrow>
                     let next = (if endIndex < total then Some (page_n + 1) else None)
                     in (st, respond 200 (Page (populate_page st ps) next))))"

subsection \<open>GET /api/posts/saves\<close>

definition get_saves :: "store \<Rightarrow> string \<Rightarrow> store \<times> response" where
  "get_saves st userId =
     (st, respond 200
        (PostList (populate_page st
           (filter (\<lambda>p. list_ex (\<lambda>s. save_user s = userId) (saves p)) (posts st)))))"

subsection \<open>GET /api/posts/:postId and DELETE /api/posts/:postId\<close>

definition get_post :: "(string \<Rightarrow> bool) \<Rightarrow> store \<Rightarrow> string \<Rightarrow> store \<times> response" where
  "get_post valid_id st postId =
     (case findById valid_id postId (posts st) of
        Inl e \<Rightarrow> (st, server_error)
      | Inr None \<Rightarrow> (st, post_not_found)
      | Inr (Some post0) \<Rightarrow>
          let post1 = post0\<lparr>views := views post0 + 1\<rparr>;
              st1 = st\<lparr>posts := save_doc post1 (posts st)\<rparr>
          in (st1, respond 200
                (PostPopulated post1 (findUserById (user post1) (users st))
                   (populate_comments st (comments post1)))))"

text \<open>
  In \<open>post.user.toString() === req.userId || user.role === 'root'\<close> the role is read
  only when the first test fails; it throws when no document of the requester was found.
\<close>

definition delete_post :: "(string \<Rightarrow> bool) \<Rightarrow> store \<Rightarrow> string \<Rightarrow> string \<Rightarrow> store \<times> response" where
  "delete_post valid_id st userId postId =
     (case findById valid_id postId (posts st) of
        Inl e \<Rightarrow> (st, server_error)
      | Inr None \<Rightarrow> (st, post_not_found)
      | Inr (Some post0) \<Rightarrow>
          let removed = (st\<lparr>posts := remove_doc post0 (posts st)\<rparr>,
                         respond 200 (Msg ''Post deleted''));
              refused = (st, respond 401 (Msg ''You are not authorized to delete this post''))
          in if user post0 = userId then removed
             else (case findUserById userId (users st) of
                     None \<Rightarrow> (st, server_error)
                   | Some u \<Rightarrow> if role u = ''root'' then removed else refused))"

subsection \<open>PUT /api/posts/like/:postId and PUT /api/posts/save/:postId\<close>

definition put_like :: "(string \<Rightarrow> bool) \<Rightarrow> store \<Rightarrow> string \<Rightarrow> string \<Rightarrow> store \<times> response" where
  "put_like valid_id st userId postId =
     (case findById valid_id postId (posts st) of
        Inl e \<Rightarrow> (st, server_error)
      | Inr None \<Rightarrow> (st, post_not_found)
      | Inr (Some post0) \<Rightarrow>
          let isLiked = (0 < length (filter (\<lambda>l. like_user l = userId) (likes post0)))
          in if isLiked
             then
               let index = findIndex (\<lambda>l. like_user l = userId) (likes post0);
                   post1 = post0\<lparr>likes := splice_js index 1 (likes post0)\<rparr>;
                   st1 = st\<lparr>posts := save_doc post1 (posts st)\<rparr>;
                   st2 = (if user post1 \<noteq> userId
                          then notify (RemoveLike (user post1) userId postId) st1 else st1)
               in (st2, respond 200 (PostDoc post1))
             else
               let post1 = post0\<lparr>likes := unshift \<lparr>like_user = userId\<rparr> (likes post0)\<rparr>;
                   st1 = st\<lparr>posts := save_doc post1 (posts st)\<rparr>;
                   st2 = (if user post1 \<noteq> userId
                          then notify (NewLike (user post1) userId postId) st1 else st1)
               in (st2, respond 200 (PostDoc post1)))"

definition put_save :: "(string \<Rightarrow> bool) \<Rightarrow> store \<Rightarrow> string \<Rightarrow> string \<Rightarrow> store \<times> response" where
  "put_save valid_id st userId postId =
     (case findById valid_id postId (posts st) of
        Inl e \<Rightarrow> (st, server_error)
      | Inr None \<Rightarrow> (st, post_not_found)
      | Inr (Some post0) \<Rightarrow>
          let isSaved = (0 < length (filter (\<lambda>s. save_user s = userId) (saves post0)))
          in if isSaved
             then
               let index = findIndex (\<lambda>s. save_user s = userId) (saves post0);
                   post1 = post0\<lparr>saves := splice_js index 1 (saves post0)\<rparr>
               in (st\<lparr>posts := save_doc post1 (posts st)\<rparr>, respond 200 (PostDoc post1))
             else
               let post1 = post0\<lparr>saves := unshift \<lparr>save_user = userId\<rparr> (saves post0)\<rparr>
               in (st\<lparr>posts := save_doc post1 (posts st)\<rparr>, respond 200 (PostDoc post1)))"

subsection \<open>GET /api/posts/like/:postId\<close>

definition get_likes :: "(string \<Rightarrow> bool) \<Rightarrow> store \<Rightarrow> string \<Rightarrow> store \<times> response" where
  "get_likes valid_id st postId =
     (case findById valid_id postId (posts st) of
        Inl e \<Rightarrow> (st, server_error)
      | Inr None \<Rightarrow> (st, post_not_found)
      | Inr (Some post0) \<Rightarrow> (st, respond 200 (LikeList (populate_likes st (likes post0)))))"

subsection \<open>POST /api/posts/comment/:postId\<close>

text \<open>
  The text of the body is absent (\<open>None\<close>) or a string; reading the length of an absent
  text throws. The identifier from \<open>uuid()\<close> and the time from \<open>Date.now()\<close> are the
  arguments \<open>new_id\<close> and \<open>now\<close>.
\<close>

definition post_comment ::
  "(string \<Rightarrow> bool) \<Rightarrow> store \<Rightarrow> string \<Rightarrow> string \<Rightarrow> string option \<Rightarrow> string \<Rightarrow> int
     \<Rightarrow> store \<times> response" where
  "post_comment valid_id st userId postId text_opt new_id now =
     (case text_opt of
        None \<Rightarrow> (st, server_error)
      | Some txt \<Rightarrow>
          if int (length txt) < 1
          then (st, respond 400 (Msg ''Comment must be atleast 1 character long''))
          else
            (case findById valid_id postId (posts st) of
               Inl e \<Rightarrow> (st, server_error)
             | Inr None \<Rightarrow> (st, post_not_found)
             | Inr (Some post0) \<Rightarrow>
                 let c = \<lparr>comment_id = new_id, comment_user = userId,
                          comment_text = txt, comment_date = now\<rparr>;
                     post1 = post0\<lparr>comments := unshift c (comments post0)\<rparr>;
                     st1 = st\<lparr>posts := save_doc post1 (posts st)\<rparr>;
                     st2 = (if user post1 \<noteq> userId
                            then notify (NewComment (user post1) userId postId
                                           (comment_id c) txt) st1
                            else st1)
                 in (st2, respond 201 (CommentList (populate_comments st (comments post1))))))"

subsection \<open>DELETE /api/posts/comment/:postId/:commentId\<close>

definition delete_comment ::
  "(string \<Rightarrow> bool) \<Rightarrow> store \<Rightarrow> string \<Rightarrow> string \<Rightarrow> string \<Rightarrow> store \<times> response" where
  "delete_comment valid_id st userId postId commentId =
     (case findById valid_id postId (posts st) of
        Inl e \<Rightarrow> (st, server_error)
      | Inr None \<Rightarrow> (st, post_not_found)
      | Inr (Some post0) \<Rightarrow>
          (case find (\<lambda>c. comment_id c = commentId) (comments post0) of
             None \<Rightarrow> (st, respond 404 (Msg ''Comment not found''))
           | Some c \<Rightarrow>
               let removed =
                     (let index = findIndex (\<lambda>c. comment_id c = commentId) (comments post0);
                          post1 = post0\<lparr>comments := splice_js index 1 (comments post0)\<rparr>;
                          st1 = st\<lparr>posts := save_doc post1 (posts st)\<rparr>;
                          st2 = (if user post1 \<noteq> userId
                                 then notify (RemoveComment (user post1) userId postId
                                                (comment_id c)) st1
                                 else st1)
                      in (st2, respond 200 (CommentList (populate_comments st (comments post1)))));
                   refused =
                     (st, respond 401 (Msg ''You are not authorized to delete this comment''))
               in if comment_user c = userId then removed
                  else (case findUserById userId (users st) of
                          None \<Rightarrow> (st, server_error)
                        | Some u \<Rightarrow> if role u = ''root'' then removed else refused)))"

subsection \<open>A small store, for evaluating the handlers\<close>

definition ex_comment :: comment where
  "ex_comment = \<lparr>comment_id = ''c1'', comment_user = ''bob'',
                  comment_text = ''nice'', comment_date = 15\<rparr>"

definition ex_post :: post where
  "ex_post = \<lparr>post_id = ''000000000000000000000001'', user = ''alice'', title = ''Board'',
               description = ''A kanban board'', images = [''a.png''],
               liveDemo = ''demo'', sourceCode = None, techStack = [''react''],
               likes = [\<lparr>like_user = ''alice''\<rparr>, \<lparr>like_user = ''bob''\<rparr>],
               saves = [\<lparr>save_user = ''alice''\<rparr>, \<lparr>save_user = ''bob''\<rparr>],
               comments = [ex_comment], views = 3, createdAt = 10\<rparr>"

definition ex_post2 :: post where
  "ex_post2 = \<lparr>post_id = ''000000000000000000000002'', user = ''bob'', title = ''Shop'',
                description = ''A shop'', images = [''b.png''],
                liveDemo = ''demo2'', sourceCode = Some ''repo'', techStack = [''vue''],
                likes = [], saves = [], comments = [], views = 0, createdAt = 20\<rparr>"

definition ex_store :: store where
  "ex_store = \<lparr>posts = [ex_post, ex_post2],
                users = [\<lparr>user_id = ''alice'', role = ''user''\<rparr>,
                         \<lparr>user_id = ''bob'', role = ''user''\<rparr>,
                         \<lparr>user_id = ''carol'', role = ''root''\<rparr>],
                followers = [\<lparr>follower_user = ''carol'',
                              following = [\<lparr>following_user = ''alice''\<rparr>]\<rparr>],
                notified = []\<rparr>"

text \<open>
  The queries \<open>?page=1&limit=1\<close> and \<open>?page=%C2%A02&limit=1\<close>, the second with a
  no-break space before the digit.
\<close>

definition ex_query :: page_query where
  "ex_query = \<lparr>page = Some [0x31], limit = Some [0x31]\<rparr>"

definition ex_query2 :: page_query where
  "ex_query2 = \<lparr>page = Some [0xA0, 0x32], limit = Some [0x31]\<rparr>"

text \<open>
  For the small store the cast accepts the strings of 24 hexadecimal digits, the usual
  written form of an identifier.
\<close>

definition is_hex :: "char \<Rightarrow> bool" where
  "is_hex c = (c \<in> set ''0123456789abcdefABCDEF'')"

definition ex_valid_id :: "string \<Rightarrow> bool" where
  "ex_valid_id s = (length s = 24 \<and> list_all is_hex s)"

definition ex_body :: create_body where
  "ex_body = \<lparr>body_title = ''Blog'', body_description = ''A blog'', body_liveDemo = ''demo3'',
               body_sourceCode = None, body_techStack = ''[]''\<rparr>"

section \<open>Properties\<close>

subsection \<open>The array methods\<close>

lemma findIndex_nonneg: "(0 \<le> findIndex P xs) = (\<exists>x\<in>set xs. P x)"
  by (induction xs) (auto simp: Let_def)

lemma findIndex_first:
  "\<exists>x\<in>set xs. P x \<Longrightarrow> findIndex P xs = int (length (takeWhile (\<lambda>x. \<not> P x) xs))"
proof (induction xs)
  case Nil
  then show ?case by simp
next
  case (Cons x xs)
  show ?case
  proof (cases "P x")
    case True
    then show ?thesis by simp
  next
    case False
    with Cons.prems have ex: "\<exists>x\<in>set xs. P x" by simp
    then have "0 \<le> findIndex P xs" by (simp add: findIndex_nonneg)
    with False Cons.IH [OF ex] show ?thesis by (simp add: Let_def)
  qed
qed

lemma findIndex_absent: "\<not> (\<exists>x\<in>set xs. P x) \<Longrightarrow> findIndex P xs = - 1"
  by (induction xs) (auto simp: Let_def)

lemma splice_js_one: "i < length xs \<Longrightarrow> splice_js (int i) 1 xs = take i xs @ drop (Suc i) xs"
  by (simp add: splice_js_def Let_def min_def max_def nat_add_distrib)

lemma takeWhile_short:
  "\<exists>x\<in>set xs. P x \<Longrightarrow> length (takeWhile (\<lambda>x. \<not> P x) xs) < length xs"
  by (induction xs) auto

lemma first_match:
  "\<exists>x\<in>set xs. P x \<Longrightarrow> P (xs ! length (takeWhile (\<lambda>x. \<not> P x) xs))"
  by (induction xs) auto

lemma before_first_match:
  "j < length (takeWhile (\<lambda>x. \<not> P x) xs) \<Longrightarrow> \<not> P (xs ! j)"
  by (metis (mono_tags, lifting) nth_mem set_takeWhileD takeWhile_nth)

text \<open>Splicing one element out at the index found removes the first match.\<close>

lemma splice_findIndex:
  "\<exists>x\<in>set xs. P x \<Longrightarrow>
   splice_js (findIndex P xs) 1 xs =
     takeWhile (\<lambda>x. \<not> P x) xs @ tl (dropWhile (\<lambda>x. \<not> P x) xs)"
proof -
  assume ex: "\<exists>x\<in>set xs. P x"
  have "take (length (takeWhile (\<lambda>x. \<not> P x) xs)) xs
          @ drop (Suc (length (takeWhile (\<lambda>x. \<not> P x) xs))) xs
        = takeWhile (\<lambda>x. \<not> P x) xs @ tl (dropWhile (\<lambda>x. \<not> P x) xs)"
    by (induction xs) auto
  with ex show ?thesis
    by (simp add: findIndex_first splice_js_one takeWhile_short)
qed

lemma cut_at_index:
  "takeWhile (\<lambda>x. \<not> P x) xs @ tl (dropWhile (\<lambda>x. \<not> P x) xs)
   = take (length (takeWhile (\<lambda>x. \<not> P x) xs)) xs
       @ drop (Suc (length (takeWhile (\<lambda>x. \<not> P x) xs))) xs"
  by (induction xs) auto

lemma cut_subset: "set (takeWhile Q xs @ tl (dropWhile Q xs)) \<subseteq> set xs"
  by (induction xs) auto

lemma cut_distinct:
  "distinct (map f xs) \<Longrightarrow> distinct (map f (takeWhile Q xs @ tl (dropWhile Q xs)))"
proof (induction xs)
  case Nil
  then show ?case by simp
next
  case (Cons x xs)
  have "f ` set (takeWhile Q xs @ tl (dropWhile Q xs)) \<subseteq> f ` set xs"
    using cut_subset [of Q xs] by blast
  with Cons show ?case by auto
qed

lemma cut_removes:
  "distinct (map f xs) \<Longrightarrow>
   a \<notin> f ` set (takeWhile (\<lambda>x. f x \<noteq> a) xs @ tl (dropWhile (\<lambda>x. f x \<noteq> a) xs))"
proof (induction xs)
  case Nil
  then show ?case by simp
next
  case (Cons x xs)
  then show ?case by (cases "f x = a") (auto simp: image_iff)
qed

lemma cut_filter:
  "distinct (map f xs) \<Longrightarrow>
   takeWhile (\<lambda>x. f x \<noteq> a) xs @ tl (dropWhile (\<lambda>x. f x \<noteq> a) xs) = filter (\<lambda>x. f x \<noteq> a) xs"
proof (induction xs)
  case Nil
  then show ?case by simp
next
  case (Cons x xs)
  show ?case
  proof (cases "f x = a")
    case True
    with Cons.prems have "\<forall>y\<in>set xs. f y \<noteq> a" by (auto simp: image_iff)
    then have "filter (\<lambda>x. f x \<noteq> a) xs = xs" by (simp add: filter_id_conv)
    with True show ?thesis by simp
  next
    case False
    with Cons show ?thesis by simp
  qed
qed

subsection \<open>The posts collection\<close>

lemma findById_valid: "findById valid_id pid ps = Inr r \<Longrightarrow> valid_id pid"
  by (auto simp: findById_def split: if_splits)

lemma findById_post_id: "findById valid_id pid ps = Inr (Some p) \<Longrightarrow> post_id p = pid"
  by (auto simp: findById_def find_Some_iff split: if_splits)

lemma find_save_doc:
  "find (\<lambda>q. post_id q = pid) ps = Some p \<Longrightarrow> post_id p' = pid \<Longrightarrow>
   find (\<lambda>q. post_id q = pid) (save_doc p' ps) = Some p'"
  by (induction ps) (auto simp: save_doc_def split: if_splits)

lemma findById_save_doc:
  "findById valid_id pid ps = Inr (Some p) \<Longrightarrow> post_id p' = pid \<Longrightarrow>
   findById valid_id pid (save_doc p' ps) = Inr (Some p')"
  by (auto simp: findById_def find_save_doc split: if_splits)

lemma find_save_doc_other:
  "post_id p' \<noteq> qid \<Longrightarrow>
   find (\<lambda>q. post_id q = qid) (save_doc p' ps) = find (\<lambda>q. post_id q = qid) ps"
  by (induction ps) (auto simp: save_doc_def)

lemma findById_save_doc_other:
  "post_id p' \<noteq> qid \<Longrightarrow> findById valid_id qid (save_doc p' ps) = findById valid_id qid ps"
  by (simp add: findById_def find_save_doc_other)

lemma find_remove_doc: "find (\<lambda>q. post_id q = post_id p) (remove_doc p ps) = None"
  by (induction ps) (auto simp: remove_doc_def)

lemma findById_remove_doc:
  "valid_id (post_id p) \<Longrightarrow> findById valid_id (post_id p) (remove_doc p ps) = Inr None"
  by (simp add: findById_def find_remove_doc)

lemma find_remove_doc_other:
  "post_id p \<noteq> qid \<Longrightarrow>
   find (\<lambda>q. post_id q = qid) (remove_doc p ps) = find (\<lambda>q. post_id q = qid) ps"
  by (induction ps) (auto simp: remove_doc_def)

lemma findById_remove_doc_other:
  "post_id p \<noteq> qid \<Longrightarrow> findById valid_id qid (remove_doc p ps) = findById valid_id qid ps"
  by (simp add: findById_def find_remove_doc_other)

subsection \<open>The like and save toggles\<close>

lemma put_like_present:
  assumes "findById valid_id postId (posts st) = Inr (Some p)"
    and "\<exists>l\<in>set (likes p). like_user l = userId"
  shows "put_like valid_id st userId postId =
    (let p' = p\<lparr>likes := takeWhile (\<lambda>l. like_user l \<noteq> userId) (likes p)
                            @ tl (dropWhile (\<lambda>l. like_user l \<noteq> userId) (likes p))\<rparr>;
         st' = st\<lparr>posts := save_doc p' (posts st)\<rparr>
     in (if user p \<noteq> userId then notify (RemoveLike (user p) userId postId) st' else st',
         respond 200 (PostDoc p')))"
  using assms splice_findIndex [of "likes p" "\<lambda>l. like_user l = userId"]
  by (auto simp add: put_like_def filter_empty_conv Let_def)

lemma put_like_absent:
  assumes "findById valid_id postId (posts st) = Inr (Some p)"
    and "\<forall>l\<in>set (likes p). like_user l \<noteq> userId"
  shows "put_like valid_id st userId postId =
    (let p' = p\<lparr>likes := \<lparr>like_user = userId\<rparr> # likes p\<rparr>;
         st' = st\<lparr>posts := save_doc p' (posts st)\<rparr>
     in (if user p \<noteq> userId then notify (NewLike (user p) userId postId) st' else st',
         respond 200 (PostDoc p')))"
  using assms
  by (simp add: put_like_def filter_empty_conv Let_def unshift_def)

lemma put_save_present:
  assumes "findById valid_id postId (posts st) = Inr (Some p)"
    and "\<exists>s\<in>set (saves p). save_user s = userId"
  shows "put_save valid_id st userId postId =
    (let p' = p\<lparr>saves := takeWhile (\<lambda>s. save_user s \<noteq> userId) (saves p)
                            @ tl (dropWhile (\<lambda>s. save_user s \<noteq> userId) (saves p))\<rparr>
     in (st\<lparr>posts := save_doc p' (posts st)\<rparr>, respond 200 (PostDoc p')))"
  using assms splice_findIndex [of "saves p" "\<lambda>s. save_user s = userId"]
  by (auto simp add: put_save_def filter_empty_conv Let_def)

lemma put_save_absent:
  assumes "findById valid_id postId (posts st) = Inr (Some p)"
    and "\<forall>s\<in>set (saves p). save_user s \<noteq> userId"
  shows "put_save valid_id st userId postId =
    (let p' = p\<lparr>saves := \<lparr>save_user = userId\<rparr> # saves p\<rparr>
     in (st\<lparr>posts := save_doc p' (posts st)\<rparr>, respond 200 (PostDoc p')))"
  using assms
  by (simp add: put_save_def filter_empty_conv Let_def unshift_def)

lemma posts_notify [simp]: "posts (notify n st) = posts st"
  by (simp add: notify_def)

text \<open>What either toggle leaves in the collection and sends back.\<close>

lemma put_like_stored:
  assumes "findById valid_id postId (posts st) = Inr (Some p)"
  shows "findById valid_id postId (posts (fst (put_like valid_id st userId postId))) =
     Inr (Some (p\<lparr>likes := (if \<exists>l\<in>set (likes p). like_user l = userId
                         then takeWhile (\<lambda>l. like_user l \<noteq> userId) (likes p)
                                @ tl (dropWhile (\<lambda>l. like_user l \<noteq> userId) (likes p))
                         else \<lparr>like_user = userId\<rparr> # likes p)\<rparr>))"
proof (cases "\<exists>l\<in>set (likes p). like_user l = userId")
  case True
  with assms show ?thesis
    by (simp add: put_like_present Let_def findById_save_doc findById_post_id)
next
  case False
  with assms show ?thesis
    by (simp add: put_like_absent Let_def findById_save_doc findById_post_id)
qed

lemma put_like_response:
  assumes "findById valid_id postId (posts st) = Inr (Some p)"
  shows "snd (put_like valid_id st userId postId) =
     respond 200 (PostDoc (p\<lparr>likes := (if \<exists>l\<in>set (likes p). like_user l = userId
                         then takeWhile (\<lambda>l. like_user l \<noteq> userId) (likes p)
                                @ tl (dropWhile (\<lambda>l. like_user l \<noteq> userId) (likes p))
                         else \<lparr>like_user = userId\<rparr> # likes p)\<rparr>))"
proof (cases "\<exists>l\<in>set (likes p). like_user l = userId")
  case True
  with assms show ?thesis by (simp add: put_like_present Let_def)
next
  case False
  with assms show ?thesis by (simp add: put_like_absent Let_def)
qed

lemma put_save_stored:
  assumes "findById valid_id postId (posts st) = Inr (Some p)"
  shows "findById valid_id postId (posts (fst (put_save valid_id st userId postId))) =
     Inr (Some (p\<lparr>saves := (if \<exists>s\<in>set (saves p). save_user s = userId
                         then takeWhile (\<lambda>s. save_user s \<noteq> userId) (saves p)
                                @ tl (dropWhile (\<lambda>s. save_user s \<noteq> userId) (saves p))
                         else \<lparr>save_user = userId\<rparr> # saves p)\<rparr>))"
proof (cases "\<exists>s\<in>set (saves p). save_user s = userId")
  case True
  with assms show ?thesis
    by (simp add: put_save_present Let_def findById_save_doc findById_post_id)
next
  case False
  with assms show ?thesis
    by (simp add: put_save_absent Let_def findById_save_doc findById_post_id)
qed

lemma put_save_response:
  assumes "findById valid_id postId (posts st) = Inr (Some p)"
  shows "snd (put_save valid_id st userId postId) =
     respond 200 (PostDoc (p\<lparr>saves := (if \<exists>s\<in>set (saves p). save_user s = userId
                         then takeWhile (\<lambda>s. save_user s \<noteq> userId) (saves p)
                                @ tl (dropWhile (\<lambda>s. save_user s \<noteq> userId) (saves p))
                         else \<lparr>save_user = userId\<rparr> # saves p)\<rparr>))"
proof (cases "\<exists>s\<in>set (saves p). save_user s = userId")
  case True
  with assms show ?thesis by (simp add: put_save_present Let_def)
next
  case False
  with assms show ?thesis by (simp add: put_save_absent Let_def)
qed

text \<open>Toggling twice.\<close>

lemma cut_mset:
  "\<exists>x\<in>set xs. P x \<Longrightarrow>
   \<exists>y. P y \<and> mset xs = add_mset y (mset (takeWhile (\<lambda>x. \<not> P x) xs @ tl (dropWhile (\<lambda>x. \<not> P x) xs)))"
  by (induction xs) auto

lemma like_eq: "like_user l = u \<Longrightarrow> l = \<lparr>like_user = u\<rparr>"
  by (cases l) simp

lemma save_eq: "save_user s = u \<Longrightarrow> s = \<lparr>save_user = u\<rparr>"
  by (cases s) simp

lemma cut_absent:
  "distinct (map f xs) \<Longrightarrow>
   \<forall>x\<in>set (takeWhile (\<lambda>x. f x \<noteq> a) xs @ tl (dropWhile (\<lambda>x. f x \<noteq> a) xs)). f x \<noteq> a"
  using cut_removes [of f xs a] by blast

lemma put_like_twice:
  assumes found: "findById valid_id postId (posts st) = Inr (Some p)"
    and dist: "distinct (map like_user (likes p))"
  shows "findById valid_id postId (posts (fst (put_like valid_id (fst (put_like valid_id st userId postId)) userId postId)))
           = Inr (Some (p\<lparr>likes := (if \<exists>l\<in>set (likes p). like_user l = userId
                                 then \<lparr>like_user = userId\<rparr> # filter (\<lambda>l. like_user l \<noteq> userId) (likes p)
                                 else likes p)\<rparr>))"
proof -
  let ?st1 = "fst (put_like valid_id st userId postId)"
  let ?cut = "takeWhile (\<lambda>l. like_user l \<noteq> userId) (likes p)
                @ tl (dropWhile (\<lambda>l. like_user l \<noteq> userId) (likes p))"
  show ?thesis
  proof (cases "\<exists>l\<in>set (likes p). like_user l = userId")
    case True
    from put_like_stored [OF found, of userId]
    have one: "findById valid_id postId (posts ?st1) = Inr (Some (p\<lparr>likes := ?cut\<rparr>))"
      by (simp only: True if_True)
    have sel: "likes (p\<lparr>likes := ?cut\<rparr>) = ?cut" by simp
    have absent: "\<not> (\<exists>l\<in>set (likes (p\<lparr>likes := ?cut\<rparr>)). like_user l = userId)"
      unfolding sel using cut_absent [OF dist, of userId] by blast
    from put_like_stored [OF one, of userId]
    have "findById valid_id postId (posts (fst (put_like valid_id ?st1 userId postId)))
            = Inr (Some (p\<lparr>likes := ?cut\<rparr>\<lparr>likes := \<lparr>like_user = userId\<rparr> # likes (p\<lparr>likes := ?cut\<rparr>)\<rparr>))"
      by (simp only: absent if_False)
    then have "findById valid_id postId (posts (fst (put_like valid_id ?st1 userId postId)))
            = Inr (Some (p\<lparr>likes := \<lparr>like_user = userId\<rparr> # ?cut\<rparr>))"
      by simp
    then show ?thesis
      by (simp only: True if_True cut_filter [OF dist, of userId])
  next
    case False
    from put_like_stored [OF found, of userId]
    have one: "findById valid_id postId (posts ?st1) = Inr (Some (p\<lparr>likes := \<lparr>like_user = userId\<rparr> # likes p\<rparr>))"
      by (simp only: False if_False)
    from put_like_stored [OF one, of userId]
    have "findById valid_id postId (posts (fst (put_like valid_id ?st1 userId postId))) = Inr (Some (p\<lparr>likes := likes p\<rparr>))"
      by simp
    then show ?thesis by (simp only: False if_False)
  qed
qed

lemma put_save_twice:
  assumes found: "findById valid_id postId (posts st) = Inr (Some p)"
    and dist: "distinct (map save_user (saves p))"
  shows "findById valid_id postId (posts (fst (put_save valid_id (fst (put_save valid_id st userId postId)) userId postId)))
           = Inr (Some (p\<lparr>saves := (if \<exists>s\<in>set (saves p). save_user s = userId
                                 then \<lparr>save_user = userId\<rparr> # filter (\<lambda>s. save_user s \<noteq> userId) (saves p)
                                 else saves p)\<rparr>))"
proof -
  let ?st1 = "fst (put_save valid_id st userId postId)"
  let ?cut = "takeWhile (\<lambda>s. save_user s \<noteq> userId) (saves p)
                @ tl (dropWhile (\<lambda>s. save_user s \<noteq> userId) (saves p))"
  show ?thesis
  proof (cases "\<exists>s\<in>set (saves p). save_user s = userId")
    case True
    from put_save_stored [OF found, of userId]
    have one: "findById valid_id postId (posts ?st1) = Inr (Some (p\<lparr>saves := ?cut\<rparr>))"
      by (simp only: True if_True)
    have sel: "saves (p\<lparr>saves := ?cut\<rparr>) = ?cut" by simp
    have absent: "\<not> (\<exists>s\<in>set (saves (p\<lparr>saves := ?cut\<rparr>)). save_user s = userId)"
      unfolding sel using cut_absent [OF dist, of userId] by blast
    from put_save_stored [OF one, of userId]
    have "findById valid_id postId (posts (fst (put_save valid_id ?st1 userId postId)))
            = Inr (Some (p\<lparr>saves := ?cut\<rparr>\<lparr>saves := \<lparr>save_user = userId\<rparr> # saves (p\<lparr>saves := ?cut\<rparr>)\<rparr>))"
      by (simp only: absent if_False)
    then have "findById valid_id postId (posts (fst (put_save valid_id ?st1 userId postId)))
            = Inr (Some (p\<lparr>saves := \<lparr>save_user = userId\<rparr> # ?cut\<rparr>))"
      by simp
    then show ?thesis
      by (simp only: True if_True cut_filter [OF dist, of userId])
  next
    case False
    from put_save_stored [OF found, of userId]
    have one: "findById valid_id postId (posts ?st1) = Inr (Some (p\<lparr>saves := \<lparr>save_user = userId\<rparr> # saves p\<rparr>))"
      by (simp only: False if_False)
    from put_save_stored [OF one, of userId]
    have "findById valid_id postId (posts (fst (put_save valid_id ?st1 userId postId))) = Inr (Some (p\<lparr>saves := saves p\<rparr>))"
      by simp
    then show ?thesis by (simp only: False if_False)
  qed
qed

lemma moved_to_front_mset:
  assumes "distinct (map f xs)" "\<exists>x\<in>set xs. f x = a" "\<And>x. f x = a \<Longrightarrow> x = e"
  shows "mset (e # filter (\<lambda>x. f x \<noteq> a) xs) = mset xs"
proof -
  from cut_mset [of xs "\<lambda>x. f x = a"] assms(2)
  obtain y where "f y = a"
    and "mset xs = add_mset y (mset (takeWhile (\<lambda>x. f x \<noteq> a) xs @ tl (dropWhile (\<lambda>x. f x \<noteq> a) xs)))"
    by auto
  with cut_filter [OF assms(1), of a] assms(3) [of y] show ?thesis by simp
qed

lemma moved_to_front_same:
  assumes "distinct (map f xs)" "xs = e # rest" "f e = a"
  shows "e # filter (\<lambda>x. f x \<noteq> a) xs = xs"
proof -
  from assms have "\<forall>y\<in>set rest. f y \<noteq> a" by (auto simp: image_iff)
  then have "filter (\<lambda>x. f x \<noteq> a) rest = rest" by (simp add: filter_id_conv)
  with assms show ?thesis by simp
qed

subsection \<open>Evaluating the handlers on the small store\<close>

lemmas ex_defs = ex_store_def ex_post_def ex_post2_def ex_comment_def ex_query_def ex_query2_def
  ex_body_def ex_valid_id_def is_hex_def

lemmas eval_defs = findById_def findUserById_def save_doc_def remove_doc_def respond_def
  post_not_found_def server_error_def notify_def unshift_def splice_js_def Let_def
  populate_comments_def populate_user_def populate_likes_def populate_page_def

lemma ex_found: "findById ex_valid_id ''000000000000000000000001'' (posts ex_store) = Inr (Some ex_post)"
  by (simp add: findById_def ex_defs)

lemma ex_likes_distinct: "distinct (map like_user (likes ex_post))"
  by (simp add: ex_post_def)

lemma ex_saves_distinct: "distinct (map save_user (saves ex_post))"
  by (simp add: ex_post_def)

lemma ex_like_bob:
  "put_like ex_valid_id ex_store ''bob'' ''000000000000000000000001'' =
     (ex_store\<lparr>posts := [ex_post\<lparr>likes := [\<lparr>like_user = ''alice''\<rparr>]\<rparr>, ex_post2],
               notified := [RemoveLike ''alice'' ''bob'' ''000000000000000000000001'']\<rparr>,
      \<lparr>status = 200, body = PostDoc (ex_post\<lparr>likes := [\<lparr>like_user = ''alice''\<rparr>]\<rparr>)\<rparr>)"
  by (simp add: put_like_def ex_defs eval_defs)

lemma ex_save_bob:
  "put_save ex_valid_id ex_store ''bob'' ''000000000000000000000001'' =
     (ex_store\<lparr>posts := [ex_post\<lparr>saves := [\<lparr>save_user = ''alice''\<rparr>]\<rparr>, ex_post2]\<rparr>,
      \<lparr>status = 200, body = PostDoc (ex_post\<lparr>saves := [\<lparr>save_user = ''alice''\<rparr>]\<rparr>)\<rparr>)"
  by (simp add: put_save_def ex_defs eval_defs)

subsection \<open>Deleting comments and posts\<close>

lemma find_first:
  assumes "find P xs = Some x"
  shows "(\<exists>y\<in>set xs. P y) \<and> xs ! length (takeWhile (\<lambda>y. \<not> P y) xs) = x"
  using assms by (induction xs) (auto split: if_splits)

lemma users_notify [simp]: "users (notify n st) = users st"
  by (simp add: notify_def)

lemma notified_notify [simp]: "notified (notify n st) = notified st @ [n]"
  by (simp add: notify_def)

lemma delete_comment_allowed:
  assumes "findById valid_id postId (posts st) = Inr (Some p)"
    and "find (\<lambda>c. comment_id c = commentId) (comments p) = Some c"
    and "comment_user c = userId \<or> (\<exists>u. findUserById userId (users st) = Some u \<and> role u = ''root'')"
  shows "delete_comment valid_id st userId postId commentId =
    (let p' = p\<lparr>comments := takeWhile (\<lambda>c. comment_id c \<noteq> commentId) (comments p)
                               @ tl (dropWhile (\<lambda>c. comment_id c \<noteq> commentId) (comments p))\<rparr>;
         st' = st\<lparr>posts := save_doc p' (posts st)\<rparr>
     in (if user p \<noteq> userId then notify (RemoveComment (user p) userId postId (comment_id c)) st'
         else st',
         respond 200 (CommentList (populate_comments st (comments p')))))"
proof -
  from find_first [OF assms(2)] have "\<exists>y\<in>set (comments p). comment_id y = commentId" by simp
  from splice_findIndex [OF this] assms show ?thesis
    by (auto simp add: delete_comment_def Let_def)
qed

lemma delete_comment_refused:
  assumes "findById valid_id postId (posts st) = Inr (Some p)"
    and "find (\<lambda>c. comment_id c = commentId) (comments p) = Some c"
    and "comment_user c \<noteq> userId"
    and "findUserById userId (users st) = Some u" and "role u \<noteq> ''root''"
  shows "delete_comment valid_id st userId postId commentId =
    (st, respond 401 (Msg ''You are not authorized to delete this comment''))"
  using assms by (simp add: delete_comment_def Let_def)

lemma delete_comment_no_user:
  assumes "findById valid_id postId (posts st) = Inr (Some p)"
    and "find (\<lambda>c. comment_id c = commentId) (comments p) = Some c"
    and "comment_user c \<noteq> userId"
    and "findUserById userId (users st) = None"
  shows "delete_comment valid_id st userId postId commentId = (st, server_error)"
  using assms by (simp add: delete_comment_def Let_def)

lemma status_respond [simp]: "status (respond s b) = s"
  by (simp add: respond_def)

lemma delete_post_allowed:
  assumes "findById valid_id postId (posts st) = Inr (Some p)"
    and "user p = userId \<or> (\<exists>u. findUserById userId (users st) = Some u \<and> role u = ''root'')"
  shows "delete_post valid_id st userId postId =
    (st\<lparr>posts := remove_doc p (posts st)\<rparr>, respond 200 (Msg ''Post deleted''))"
  using assms by (auto simp add: delete_post_def Let_def)

lemma delete_post_refused:
  assumes "findById valid_id postId (posts st) = Inr (Some p)" and "user p \<noteq> userId"
    and "findUserById userId (users st) = Some u" and "role u \<noteq> ''root''"
  shows "delete_post valid_id st userId postId =
    (st, respond 401 (Msg ''You are not authorized to delete this post''))"
  using assms by (simp add: delete_post_def Let_def)

lemma delete_post_no_user:
  assumes "findById valid_id postId (posts st) = Inr (Some p)" and "user p \<noteq> userId"
    and "findUserById userId (users st) = None"
  shows "delete_post valid_id st userId postId = (st, server_error)"
  using assms by (simp add: delete_post_def Let_def)

subsection \<open>Reading a post and commenting\<close>

lemma get_post_found:
  assumes "findById valid_id postId (posts st) = Inr (Some p)"
  shows "get_post valid_id st postId =
    (st\<lparr>posts := save_doc (p\<lparr>views := views p + 1\<rparr>) (posts st)\<rparr>,
     respond 200 (PostPopulated (p\<lparr>views := views p + 1\<rparr>) (findUserById (user p) (users st))
                    (populate_comments st (comments p))))"
  using assms by (simp add: get_post_def Let_def)

lemma post_comment_found:
  assumes "findById valid_id postId (posts st) = Inr (Some p)" and "1 \<le> length txt"
  shows "post_comment valid_id st userId postId (Some txt) new_id now =
    (let c = \<lparr>comment_id = new_id, comment_user = userId, comment_text = txt, comment_date = now\<rparr>;
         st' = st\<lparr>posts := save_doc (p\<lparr>comments := c # comments p\<rparr>) (posts st)\<rparr>
     in (if user p \<noteq> userId then notify (NewComment (user p) userId postId new_id txt) st' else st',
         respond 201 (CommentList (populate_comments st (c # comments p)))))"
  using assms by (cases "txt") (simp_all add: post_comment_def Let_def unshift_def)

lemma notified_posts_update [simp]: "notified (st\<lparr>posts := ps\<rparr>) = notified st"
  by simp

subsection \<open>Pages\<close>

lemma sort_createdAt_desc_mset: "mset (sort_createdAt_desc ps) = mset ps"
  by (simp add: sort_createdAt_desc_def)

lemma sort_createdAt_desc_sorted:
  "sorted_wrt (\<lambda>a b. createdAt b \<le> createdAt a) (sort_createdAt_desc ps)"
proof -
  have "sorted (map (\<lambda>p. - createdAt p) (sort_key (\<lambda>p. - createdAt p) ps))"
    by (rule sorted_sort_key)
  then show ?thesis
    by (simp add: sort_createdAt_desc_def sorted_map)
qed

lemma find_page_in_range:
  "0 \<le> s \<Longrightarrow> 1 \<le> l \<Longrightarrow>
   find_page s l ps = Some (take (nat l) (drop (nat s) (sort_createdAt_desc ps)))"
  by (simp add: find_page_def Let_def)

lemma get_posts_in_range:
  assumes "or_default (parseInt (page q)) 1 = p" and "or_default (parseInt (limit q)) 12 = l"
    and "1 \<le> p" and "1 \<le> l"
  shows "get_posts st q =
    (st, respond 200
           (Page (populate_page st
                    (take (nat l) (drop (nat ((p - 1) * l)) (sort_createdAt_desc (posts st)))))
                 (if p * l < int (length (posts st)) then Some (p + 1) else None)))"
proof -
  from assms(3,4) have "0 \<le> (p - 1) * l" by simp
  from find_page_in_range [OF this assms(4)] assms(1,2) show ?thesis
    by (simp add: get_posts_def Let_def)
qed

lemma get_feed_in_range:
  assumes "or_default (parseInt (page q)) 1 = p" and "or_default (parseInt (limit q)) 12 = l"
    and "1 \<le> p" and "1 \<le> l"
    and "find (\<lambda>f. follower_user f = userId) (followers st) = Some fdoc"
  shows "get_feed st userId q =
    (st, respond 200
           (Page (populate_page st
                    (take (nat l) (drop (nat ((p - 1) * l))
                       (sort_createdAt_desc
                          (filter (\<lambda>x. user x \<in> following_user ` set (following fdoc)) (posts st))))))
                 (if p * l < int (length (filter (\<lambda>x. user x \<in> following_user ` set (following fdoc))
                                            (posts st)))
                  then Some (p + 1) else None)))"
proof -
  from assms(3,4) have "0 \<le> (p - 1) * l" by simp
  from find_page_in_range [OF this assms(4)] assms(1,2,5) show ?thesis
    by (simp add: get_feed_def Let_def)
qed

lemma ex_query_parsed:
  "or_default (parseInt (page ex_query)) 1 = 1 \<and> or_default (parseInt (limit ex_query)) 12 = 1"
  by (simp add: ex_query_def or_default_def parseInt_def parse_digits_def is_digit_def
        is_space_def digits_value_def digit_value_def)

lemma ex_query2_parsed:
  "or_default (parseInt (page ex_query2)) 1 = 2 \<and> or_default (parseInt (limit ex_query2)) 12 = 1"
  by (simp add: ex_query2_def or_default_def parseInt_def parse_digits_def is_digit_def
        is_space_def digits_value_def digit_value_def)

lemma ex_follower:
  "find (\<lambda>f. follower_user f = ''carol'') (followers ex_store)
     = Some \<lparr>follower_user = ''carol'', following = [\<lparr>following_user = ''alice''\<rparr>]\<rparr>"
  by (simp add: ex_store_def)

section \<open>The claims\<close>

text \<open>
  C2. For every existing post and every requesting user, PUT /api/posts/like/:postId
  toggles by a linear scan of the likes array: if an entry with the user's id is present,
  the entry at the first matching index \<open>i\<close> is spliced out; otherwise a new entry for the
  user is put at the front. In both cases the response is 200 with the updated post, which
  is also the post now stored. PUT /api/posts/save/:postId does the same on the saves array.
\<close>

theorem put_like_put_save_toggle:
  assumes found: "findById valid_id postId (posts st) = Inr (Some p)"
  shows "(\<exists>ls. snd (put_like valid_id st userId postId) = \<lparr>status = 200, body = PostDoc (p\<lparr>likes := ls\<rparr>)\<rparr>
           \<and> findById valid_id postId (posts (fst (put_like valid_id st userId postId))) = Inr (Some (p\<lparr>likes := ls\<rparr>))
           \<and> ((\<exists>l\<in>set (likes p). like_user l = userId) \<longrightarrow>
                (\<exists>i<length (likes p). like_user (likes p ! i) = userId
                    \<and> (\<forall>j<i. like_user (likes p ! j) \<noteq> userId)
                    \<and> ls = take i (likes p) @ drop (Suc i) (likes p)))
           \<and> ((\<forall>l\<in>set (likes p). like_user l \<noteq> userId) \<longrightarrow>
                ls = \<lparr>like_user = userId\<rparr> # likes p))
       \<and> (\<exists>ss. snd (put_save valid_id st userId postId) = \<lparr>status = 200, body = PostDoc (p\<lparr>saves := ss\<rparr>)\<rparr>
           \<and> findById valid_id postId (posts (fst (put_save valid_id st userId postId))) = Inr (Some (p\<lparr>saves := ss\<rparr>))
           \<and> ((\<exists>s\<in>set (saves p). save_user s = userId) \<longrightarrow>
                (\<exists>i<length (saves p). save_user (saves p ! i) = userId
                    \<and> (\<forall>j<i. save_user (saves p ! j) \<noteq> userId)
                    \<and> ss = take i (saves p) @ drop (Suc i) (saves p)))
           \<and> ((\<forall>s\<in>set (saves p). save_user s \<noteq> userId) \<longrightarrow>
                ss = \<lparr>save_user = userId\<rparr> # saves p))"
proof (rule conjI)
  let ?i = "length (takeWhile (\<lambda>l. like_user l \<noteq> userId) (likes p))"
  let ?ls = "if \<exists>l\<in>set (likes p). like_user l = userId
             then takeWhile (\<lambda>l. like_user l \<noteq> userId) (likes p)
                    @ tl (dropWhile (\<lambda>l. like_user l \<noteq> userId) (likes p))
             else \<lparr>like_user = userId\<rparr> # likes p"
  have resp: "snd (put_like valid_id st userId postId) = \<lparr>status = 200, body = PostDoc (p\<lparr>likes := ?ls\<rparr>)\<rparr>"
    using put_like_response [OF found, of userId] by (simp only: respond_def)
  have stored: "findById valid_id postId (posts (fst (put_like valid_id st userId postId))) = Inr (Some (p\<lparr>likes := ?ls\<rparr>))"
    by (rule put_like_stored [OF found])
  have removed: "\<exists>i<length (likes p). like_user (likes p ! i) = userId
                    \<and> (\<forall>j<i. like_user (likes p ! j) \<noteq> userId)
                    \<and> ?ls = take i (likes p) @ drop (Suc i) (likes p)"
    if present: "\<exists>l\<in>set (likes p). like_user l = userId"
  proof (intro exI [of _ ?i] conjI allI impI)
    show "?i < length (likes p)"
      using takeWhile_short [of "likes p" "\<lambda>l. like_user l = userId"] present by simp
    show "like_user (likes p ! ?i) = userId"
      using first_match [of "likes p" "\<lambda>l. like_user l = userId"] present by simp
    show "like_user (likes p ! j) \<noteq> userId" if "j < ?i" for j
      using before_first_match [of j "\<lambda>l. like_user l = userId" "likes p"] that by simp
    show "?ls = take ?i (likes p) @ drop (Suc ?i) (likes p)"
      using cut_at_index [of "\<lambda>l. like_user l = userId" "likes p"] present by simp
  qed
  have added: "?ls = \<lparr>like_user = userId\<rparr> # likes p"
    if "\<forall>l\<in>set (likes p). like_user l \<noteq> userId"
    using that by simp
  from resp stored removed added
  show "\<exists>ls. snd (put_like valid_id st userId postId) = \<lparr>status = 200, body = PostDoc (p\<lparr>likes := ls\<rparr>)\<rparr>
           \<and> findById valid_id postId (posts (fst (put_like valid_id st userId postId))) = Inr (Some (p\<lparr>likes := ls\<rparr>))
           \<and> ((\<exists>l\<in>set (likes p). like_user l = userId) \<longrightarrow>
                (\<exists>i<length (likes p). like_user (likes p ! i) = userId
                    \<and> (\<forall>j<i. like_user (likes p ! j) \<noteq> userId)
                    \<and> ls = take i (likes p) @ drop (Suc i) (likes p)))
           \<and> ((\<forall>l\<in>set (likes p). like_user l \<noteq> userId) \<longrightarrow>
                ls = \<lparr>like_user = userId\<rparr> # likes p)"
    by blast
next
  let ?i = "length (takeWhile (\<lambda>s. save_user s \<noteq> userId) (saves p))"
  let ?ss = "if \<exists>s\<in>set (saves p). save_user s = userId
             then takeWhile (\<lambda>s. save_user s \<noteq> userId) (saves p)
                    @ tl (dropWhile (\<lambda>s. save_user s \<noteq> userId) (saves p))
             else \<lparr>save_user = userId\<rparr> # saves p"
  have resp: "snd (put_save valid_id st userId postId) = \<lparr>status = 200, body = PostDoc (p\<lparr>saves := ?ss\<rparr>)\<rparr>"
    using put_save_response [OF found, of userId] by (simp only: respond_def)
  have stored: "findById valid_id postId (posts (fst (put_save valid_id st userId postId))) = Inr (Some (p\<lparr>saves := ?ss\<rparr>))"
    by (rule put_save_stored [OF found])
  have removed: "\<exists>i<length (saves p). save_user (saves p ! i) = userId
                    \<and> (\<forall>j<i. save_user (saves p ! j) \<noteq> userId)
                    \<and> ?ss = take i (saves p) @ drop (Suc i) (saves p)"
    if present: "\<exists>s\<in>set (saves p). save_user s = userId"
  proof (intro exI [of _ ?i] conjI allI impI)
    show "?i < length (saves p)"
      using takeWhile_short [of "saves p" "\<lambda>s. save_user s = userId"] present by simp
    show "save_user (saves p ! ?i) = userId"
      using first_match [of "saves p" "\<lambda>s. save_user s = userId"] present by simp
    show "save_user (saves p ! j) \<noteq> userId" if "j < ?i" for j
      using before_first_match [of j "\<lambda>s. save_user s = userId" "saves p"] that by simp
    show "?ss = take ?i (saves p) @ drop (Suc ?i) (saves p)"
      using cut_at_index [of "\<lambda>s. save_user s = userId" "saves p"] present by simp
  qed
  have added: "?ss = \<lparr>save_user = userId\<rparr> # saves p"
    if "\<forall>s\<in>set (saves p). save_user s \<noteq> userId"
    using that by simp
  from resp stored removed added
  show "\<exists>ss. snd (put_save valid_id st userId postId) = \<lparr>status = 200, body = PostDoc (p\<lparr>saves := ss\<rparr>)\<rparr>
           \<and> findById valid_id postId (posts (fst (put_save valid_id st userId postId))) = Inr (Some (p\<lparr>saves := ss\<rparr>))
           \<and> ((\<exists>s\<in>set (saves p). save_user s = userId) \<longrightarrow>
                (\<exists>i<length (saves p). save_user (saves p ! i) = userId
                    \<and> (\<forall>j<i. save_user (saves p ! j) \<noteq> userId)
                    \<and> ss = take i (saves p) @ drop (Suc i) (saves p)))
           \<and> ((\<forall>s\<in>set (saves p). save_user s \<noteq> userId) \<longrightarrow>
                ss = \<lparr>save_user = userId\<rparr> # saves p)"
    by blast
qed

theorem put_like_put_save_toggle_witness:
  "findById ex_valid_id ''000000000000000000000001'' (posts ex_store) = Inr (Some ex_post)
   \<and> snd (put_like ex_valid_id ex_store ''bob'' ''000000000000000000000001'')
       = \<lparr>status = 200, body = PostDoc (ex_post\<lparr>likes := [\<lparr>like_user = ''alice''\<rparr>]\<rparr>)\<rparr>
   \<and> snd (put_save ex_valid_id ex_store ''carol'' ''000000000000000000000001'')
       = \<lparr>status = 200, body = PostDoc (ex_post\<lparr>saves :=
            [\<lparr>save_user = ''carol''\<rparr>, \<lparr>save_user = ''alice''\<rparr>, \<lparr>save_user = ''bob''\<rparr>]\<rparr>)\<rparr>"
proof -
  have h: "findById ex_valid_id ''000000000000000000000001'' (posts ex_store) = Inr (Some ex_post)" by (rule ex_found)
  have l: "likes ex_post = [\<lparr>like_user = ''alice''\<rparr>, \<lparr>like_user = ''bob''\<rparr>]"
    by (simp add: ex_post_def)
  have s: "saves ex_post = [\<lparr>save_user = ''alice''\<rparr>, \<lparr>save_user = ''bob''\<rparr>]"
    by (simp add: ex_post_def)
  from put_like_put_save_toggle [OF h, of "''bob''"]
  have a: "snd (put_like ex_valid_id ex_store ''bob'' ''000000000000000000000001'')
       = \<lparr>status = 200, body = PostDoc (ex_post\<lparr>likes := [\<lparr>like_user = ''alice''\<rparr>]\<rparr>)\<rparr>"
    unfolding l by (auto simp: less_Suc_eq numeral_2_eq_2)
  from put_like_put_save_toggle [OF h, of "''carol''"]
  have b: "snd (put_save ex_valid_id ex_store ''carol'' ''000000000000000000000001'')
       = \<lparr>status = 200, body = PostDoc (ex_post\<lparr>saves :=
            [\<lparr>save_user = ''carol''\<rparr>, \<lparr>save_user = ''alice''\<rparr>, \<lparr>save_user = ''bob''\<rparr>]\<rparr>)\<rparr>"
    unfolding s by auto
  from h a b show ?thesis by blast
qed

text \<open>
  C3, as the handlers have it. For every post whose likes array holds at most one entry per
  user id, toggling the like twice for the same user leaves a likes array with the same
  entries as the original. It is the original array when the user had no entry or the
  user's entry was the first one; otherwise the user's entry has moved to the front, since
  the second toggle inserts at the front what the first one removed from further back. The
  save toggle does the same on the saves array.
\<close>

theorem toggle_twice_moves_entry_to_front:
  assumes found: "findById valid_id postId (posts st) = Inr (Some p)"
  shows "(distinct (map like_user (likes p)) \<longrightarrow>
           (\<exists>ls. findById valid_id postId
                    (posts (fst (put_like valid_id (fst (put_like valid_id st userId postId)) userId postId)))
                  = Inr (Some (p\<lparr>likes := ls\<rparr>))
               \<and> mset ls = mset (likes p)
               \<and> ((\<forall>l\<in>set (likes p). like_user l \<noteq> userId) \<longrightarrow> ls = likes p)
               \<and> ((\<exists>rest. likes p = \<lparr>like_user = userId\<rparr> # rest) \<longrightarrow> ls = likes p)
               \<and> ((\<exists>l\<in>set (likes p). like_user l = userId) \<longrightarrow>
                    ls = \<lparr>like_user = userId\<rparr> # filter (\<lambda>l. like_user l \<noteq> userId) (likes p))))
       \<and> (distinct (map save_user (saves p)) \<longrightarrow>
           (\<exists>ss. findById valid_id postId
                    (posts (fst (put_save valid_id (fst (put_save valid_id st userId postId)) userId postId)))
                  = Inr (Some (p\<lparr>saves := ss\<rparr>))
               \<and> mset ss = mset (saves p)
               \<and> ((\<forall>s\<in>set (saves p). save_user s \<noteq> userId) \<longrightarrow> ss = saves p)
               \<and> ((\<exists>rest. saves p = \<lparr>save_user = userId\<rparr> # rest) \<longrightarrow> ss = saves p)
               \<and> ((\<exists>s\<in>set (saves p). save_user s = userId) \<longrightarrow>
                    ss = \<lparr>save_user = userId\<rparr> # filter (\<lambda>s. save_user s \<noteq> userId) (saves p))))"
proof (intro conjI impI)
  assume dist: "distinct (map like_user (likes p))"
  let ?ls = "if \<exists>l\<in>set (likes p). like_user l = userId
             then \<lparr>like_user = userId\<rparr> # filter (\<lambda>l. like_user l \<noteq> userId) (likes p)
             else likes p"
  have perm: "mset ?ls = mset (likes p)"
    using moved_to_front_mset [OF dist, of userId "\<lparr>like_user = userId\<rparr>"] like_eq
    by (cases "\<exists>l\<in>set (likes p). like_user l = userId") simp_all
  have absent: "?ls = likes p" if "\<forall>l\<in>set (likes p). like_user l \<noteq> userId"
    using that by simp
  have front: "?ls = likes p" if "\<exists>rest. likes p = \<lparr>like_user = userId\<rparr> # rest"
  proof -
    from that obtain rest where r: "likes p = \<lparr>like_user = userId\<rparr> # rest" by blast
    then have "\<exists>l\<in>set (likes p). like_user l = userId" by simp
    with moved_to_front_same [OF dist r, of userId] show ?thesis by simp
  qed
  have present: "?ls = \<lparr>like_user = userId\<rparr> # filter (\<lambda>l. like_user l \<noteq> userId) (likes p)"
    if "\<exists>l\<in>set (likes p). like_user l = userId"
    using that by simp
  from put_like_twice [OF found dist, of userId] perm absent front present
  show "\<exists>ls. findById valid_id postId
                    (posts (fst (put_like valid_id (fst (put_like valid_id st userId postId)) userId postId)))
                  = Inr (Some (p\<lparr>likes := ls\<rparr>))
               \<and> mset ls = mset (likes p)
               \<and> ((\<forall>l\<in>set (likes p). like_user l \<noteq> userId) \<longrightarrow> ls = likes p)
               \<and> ((\<exists>rest. likes p = \<lparr>like_user = userId\<rparr> # rest) \<longrightarrow> ls = likes p)
               \<and> ((\<exists>l\<in>set (likes p). like_user l = userId) \<longrightarrow>
                    ls = \<lparr>like_user = userId\<rparr> # filter (\<lambda>l. like_user l \<noteq> userId) (likes p))"
    by blast
next
  assume dist: "distinct (map save_user (saves p))"
  let ?ss = "if \<exists>s\<in>set (saves p). save_user s = userId
             then \<lparr>save_user = userId\<rparr> # filter (\<lambda>s. save_user s \<noteq> userId) (saves p)
             else saves p"
  have perm: "mset ?ss = mset (saves p)"
    using moved_to_front_mset [OF dist, of userId "\<lparr>save_user = userId\<rparr>"] save_eq
    by (cases "\<exists>s\<in>set (saves p). save_user s = userId") simp_all
  have absent: "?ss = saves p" if "\<forall>s\<in>set (saves p). save_user s \<noteq> userId"
    using that by simp
  have front: "?ss = saves p" if "\<exists>rest. saves p = \<lparr>save_user = userId\<rparr> # rest"
  proof -
    from that obtain rest where r: "saves p = \<lparr>save_user = userId\<rparr> # rest" by blast
    then have "\<exists>s\<in>set (saves p). save_user s = userId" by simp
    with moved_to_front_same [OF dist r, of userId] show ?thesis by simp
  qed
  have present: "?ss = \<lparr>save_user = userId\<rparr> # filter (\<lambda>s. save_user s \<noteq> userId) (saves p)"
    if "\<exists>s\<in>set (saves p). save_user s = userId"
    using that by simp
  from put_save_twice [OF found dist, of userId] perm absent front present
  show "\<exists>ss. findById valid_id postId
                    (posts (fst (put_save valid_id (fst (put_save valid_id st userId postId)) userId postId)))
                  = Inr (Some (p\<lparr>saves := ss\<rparr>))
               \<and> mset ss = mset (saves p)
               \<and> ((\<forall>s\<in>set (saves p). save_user s \<noteq> userId) \<longrightarrow> ss = saves p)
               \<and> ((\<exists>rest. saves p = \<lparr>save_user = userId\<rparr> # rest) \<longrightarrow> ss = saves p)
               \<and> ((\<exists>s\<in>set (saves p). save_user s = userId) \<longrightarrow>
                    ss = \<lparr>save_user = userId\<rparr> # filter (\<lambda>s. save_user s \<noteq> userId) (saves p))"
    by blast
qed

theorem toggle_twice_moves_entry_to_front_witness:
  "findById ex_valid_id ''000000000000000000000001'' (posts ex_store) = Inr (Some ex_post)
   \<and> distinct (map like_user (likes ex_post)) \<and> distinct (map save_user (saves ex_post))
   \<and> findById ex_valid_id ''000000000000000000000001'' (posts (fst (put_like ex_valid_id (fst (put_like ex_valid_id ex_store ''bob'' ''000000000000000000000001'')) ''bob'' ''000000000000000000000001'')))
       = Inr (Some (ex_post\<lparr>likes := [\<lparr>like_user = ''bob''\<rparr>, \<lparr>like_user = ''alice''\<rparr>]\<rparr>))
   \<and> findById ex_valid_id ''000000000000000000000001'' (posts (fst (put_save ex_valid_id (fst (put_save ex_valid_id ex_store ''carol'' ''000000000000000000000001'')) ''carol'' ''000000000000000000000001'')))
       = Inr (Some ex_post)"
proof -
  have l: "likes ex_post = [\<lparr>like_user = ''alice''\<rparr>, \<lparr>like_user = ''bob''\<rparr>]"
    by (simp add: ex_post_def)
  have s: "saves ex_post = [\<lparr>save_user = ''alice''\<rparr>, \<lparr>save_user = ''bob''\<rparr>]"
    by (simp add: ex_post_def)
  from toggle_twice_moves_entry_to_front [OF ex_found, of "''bob''"] ex_likes_distinct
  have a: "findById ex_valid_id ''000000000000000000000001'' (posts (fst (put_like ex_valid_id (fst (put_like ex_valid_id ex_store ''bob'' ''000000000000000000000001'')) ''bob'' ''000000000000000000000001'')))
       = Inr (Some (ex_post\<lparr>likes := [\<lparr>like_user = ''bob''\<rparr>, \<lparr>like_user = ''alice''\<rparr>]\<rparr>))"
    unfolding l by auto
  from toggle_twice_moves_entry_to_front [OF ex_found, of "''carol''"] ex_saves_distinct
  have b: "findById ex_valid_id ''000000000000000000000001'' (posts (fst (put_save ex_valid_id (fst (put_save ex_valid_id ex_store ''carol'' ''000000000000000000000001'')) ''carol'' ''000000000000000000000001'')))
       = Inr (Some ex_post)"
    unfolding s by (auto simp: ex_post_def)
  from ex_found ex_likes_distinct ex_saves_distinct a b show ?thesis by blast
qed

text \<open>
  The likes array after two toggles need not be the original one: bob's like, second in
  the array, comes back first.
\<close>

theorem toggle_twice_counterexample:
  "findById ex_valid_id ''000000000000000000000001'' (posts ex_store) = Inr (Some ex_post)
   \<and> distinct (map like_user (likes ex_post))
   \<and> findById ex_valid_id ''000000000000000000000001'' (posts (fst (put_like ex_valid_id (fst (put_like ex_valid_id ex_store ''bob'' ''000000000000000000000001'')) ''bob'' ''000000000000000000000001'')))
       = Inr (Some (ex_post\<lparr>likes := [\<lparr>like_user = ''bob''\<rparr>, \<lparr>like_user = ''alice''\<rparr>]\<rparr>))
   \<and> likes (ex_post\<lparr>likes := [\<lparr>like_user = ''bob''\<rparr>, \<lparr>like_user = ''alice''\<rparr>]\<rparr>) \<noteq> likes ex_post"
  by (simp add: put_like_def ex_defs eval_defs)

text \<open>
  C4. Uniqueness by user id is kept by both toggles: for every post whose likes array
  holds each user id at most once, the like toggle stores and sends back a post whose likes
  array still holds each user id at most once, and whose saves array is untouched; likewise
  for the save toggle and the saves array.
\<close>

theorem toggle_keeps_user_ids_unique:
  assumes found: "findById valid_id postId (posts st) = Inr (Some p)"
  shows "(distinct (map like_user (likes p)) \<longrightarrow>
           (\<exists>p'. findById valid_id postId (posts (fst (put_like valid_id st userId postId))) = Inr (Some p')
               \<and> snd (put_like valid_id st userId postId) = \<lparr>status = 200, body = PostDoc p'\<rparr>
               \<and> distinct (map like_user (likes p')) \<and> saves p' = saves p))
       \<and> (distinct (map save_user (saves p)) \<longrightarrow>
           (\<exists>p'. findById valid_id postId (posts (fst (put_save valid_id st userId postId))) = Inr (Some p')
               \<and> snd (put_save valid_id st userId postId) = \<lparr>status = 200, body = PostDoc p'\<rparr>
               \<and> distinct (map save_user (saves p')) \<and> likes p' = likes p))"
proof (intro conjI impI)
  assume dist: "distinct (map like_user (likes p))"
  let ?ls = "if \<exists>l\<in>set (likes p). like_user l = userId
             then takeWhile (\<lambda>l. like_user l \<noteq> userId) (likes p)
                    @ tl (dropWhile (\<lambda>l. like_user l \<noteq> userId) (likes p))
             else \<lparr>like_user = userId\<rparr> # likes p"
  have "distinct (map like_user ?ls)"
  proof (cases "\<exists>l\<in>set (likes p). like_user l = userId")
    case True
    with cut_distinct [OF dist, of "\<lambda>l. like_user l \<noteq> userId"] show ?thesis by simp
  next
    case False
    then have "userId \<notin> like_user ` set (likes p)" by blast
    with False dist show ?thesis by simp
  qed
  then have "distinct (map like_user (likes (p\<lparr>likes := ?ls\<rparr>)))" by simp
  moreover have "saves (p\<lparr>likes := ?ls\<rparr>) = saves p" by simp
  moreover have "snd (put_like valid_id st userId postId) = \<lparr>status = 200, body = PostDoc (p\<lparr>likes := ?ls\<rparr>)\<rparr>"
    using put_like_response [OF found, of userId] by (simp only: respond_def)
  moreover note put_like_stored [OF found, of userId]
  ultimately show "\<exists>p'. findById valid_id postId (posts (fst (put_like valid_id st userId postId))) = Inr (Some p')
               \<and> snd (put_like valid_id st userId postId) = \<lparr>status = 200, body = PostDoc p'\<rparr>
               \<and> distinct (map like_user (likes p')) \<and> saves p' = saves p"
    by blast
next
  assume dist: "distinct (map save_user (saves p))"
  let ?ss = "if \<exists>s\<in>set (saves p). save_user s = userId
             then takeWhile (\<lambda>s. save_user s \<noteq> userId) (saves p)
                    @ tl (dropWhile (\<lambda>s. save_user s \<noteq> userId) (saves p))
             else \<lparr>save_user = userId\<rparr> # saves p"
  have "distinct (map save_user ?ss)"
  proof (cases "\<exists>s\<in>set (saves p). save_user s = userId")
    case True
    with cut_distinct [OF dist, of "\<lambda>s. save_user s \<noteq> userId"] show ?thesis by simp
  next
    case False
    then have "userId \<notin> save_user ` set (saves p)" by blast
    with False dist show ?thesis by simp
  qed
  then have "distinct (map save_user (saves (p\<lparr>saves := ?ss\<rparr>)))" by simp
  moreover have "likes (p\<lparr>saves := ?ss\<rparr>) = likes p" by simp
  moreover have "snd (put_save valid_id st userId postId) = \<lparr>status = 200, body = PostDoc (p\<lparr>saves := ?ss\<rparr>)\<rparr>"
    using put_save_response [OF found, of userId] by (simp only: respond_def)
  moreover note put_save_stored [OF found, of userId]
  ultimately show "\<exists>p'. findById valid_id postId (posts (fst (put_save valid_id st userId postId))) = Inr (Some p')
               \<and> snd (put_save valid_id st userId postId) = \<lparr>status = 200, body = PostDoc p'\<rparr>
               \<and> distinct (map save_user (saves p')) \<and> likes p' = likes p"
    by blast
qed

theorem toggle_keeps_user_ids_unique_witness:
  "findById ex_valid_id ''000000000000000000000001'' (posts ex_store) = Inr (Some ex_post)
   \<and> distinct (map like_user (likes ex_post)) \<and> distinct (map save_user (saves ex_post))
   \<and> distinct (map like_user [\<lparr>like_user = ''alice''\<rparr>])
   \<and> distinct (map save_user [\<lparr>save_user = ''alice''\<rparr>])"
proof -
  from toggle_keeps_user_ids_unique [OF ex_found, of "''bob''"]
    ex_likes_distinct ex_saves_distinct
  obtain p' q' where "findById ex_valid_id ''000000000000000000000001'' (posts (fst (put_like ex_valid_id ex_store ''bob'' ''000000000000000000000001''))) = Inr (Some p')"
    and dl: "distinct (map like_user (likes p'))"
    and "findById ex_valid_id ''000000000000000000000001'' (posts (fst (put_save ex_valid_id ex_store ''bob'' ''000000000000000000000001''))) = Inr (Some q')"
    and ds: "distinct (map save_user (saves q'))"
    by blast
  then have "p' = ex_post\<lparr>likes := [\<lparr>like_user = ''alice''\<rparr>]\<rparr>"
    and "q' = ex_post\<lparr>saves := [\<lparr>save_user = ''alice''\<rparr>]\<rparr>"
    by (simp_all add: ex_like_bob ex_save_bob findById_def ex_post_def ex_valid_id_def is_hex_def)
  with dl ds have "distinct (map like_user [\<lparr>like_user = ''alice''\<rparr>])"
    and "distinct (map save_user [\<lparr>save_user = ''alice''\<rparr>])"
    by simp_all
  with ex_found ex_likes_distinct ex_saves_distinct show ?thesis by blast
qed

text \<open>
  C1, as the handler has it. For DELETE /api/posts/comment/:postId/:commentId, when the post
  and the comment exist, the comment is deleted exactly when the comment's author
  (\<open>comment.user\<close>, not the post's owner) is the requester or the requester's role is
  \<open>root\<close>: then the first comment with that id is spliced out, the post is saved and the
  response is 200 with the remaining comments. Otherwise the store, and with it the comments
  array, is unchanged, and the response is 401 (500 when the requester has no user document,
  since the role is then read on \<open>null\<close>).
\<close>

theorem delete_comment_authorization:
  assumes found: "findById valid_id postId (posts st) = Inr (Some p)"
    and findc: "find (\<lambda>c. comment_id c = commentId) (comments p) = Some c"
  shows "((comment_user c = userId
            \<or> (\<exists>u. findUserById userId (users st) = Some u \<and> role u = ''root'')) \<longrightarrow>
          (\<exists>i<length (comments p). comments p ! i = c
              \<and> (\<forall>j<i. comment_id (comments p ! j) \<noteq> commentId)
              \<and> findById valid_id postId (posts (fst (delete_comment valid_id st userId postId commentId)))
                  = Inr (Some (p\<lparr>comments := take i (comments p) @ drop (Suc i) (comments p)\<rparr>))
              \<and> snd (delete_comment valid_id st userId postId commentId)
                  = \<lparr>status = 200,
                     body = CommentList (populate_comments st
                              (take i (comments p) @ drop (Suc i) (comments p)))\<rparr>))
       \<and> (\<forall>u. comment_user c \<noteq> userId \<and> findUserById userId (users st) = Some u
                \<and> role u \<noteq> ''root'' \<longrightarrow>
            delete_comment valid_id st userId postId commentId
              = (st, \<lparr>status = 401, body = Msg ''You are not authorized to delete this comment''\<rparr>))
       \<and> (comment_user c \<noteq> userId \<and> findUserById userId (users st) = None \<longrightarrow>
            delete_comment valid_id st userId postId commentId
              = (st, \<lparr>status = 500, body = Msg ''Server error''\<rparr>))"
proof (intro conjI impI allI)
  let ?i = "length (takeWhile (\<lambda>c. comment_id c \<noteq> commentId) (comments p))"
  let ?cut = "takeWhile (\<lambda>c. comment_id c \<noteq> commentId) (comments p)
                @ tl (dropWhile (\<lambda>c. comment_id c \<noteq> commentId) (comments p))"
  assume allowed: "comment_user c = userId
            \<or> (\<exists>u. findUserById userId (users st) = Some u \<and> role u = ''root'')"
  from find_first [OF findc]
  have ex: "\<exists>y\<in>set (comments p). comment_id y = commentId" and at: "comments p ! ?i = c"
    by simp_all
  have cut: "?cut = take ?i (comments p) @ drop (Suc ?i) (comments p)"
    by (rule cut_at_index)
  have short: "?i < length (comments p)"
    using takeWhile_short [OF ex] by simp
  have before: "\<forall>j<?i. comment_id (comments p ! j) \<noteq> commentId"
    using before_first_match [of _ "\<lambda>c. comment_id c = commentId" "comments p"] by simp
  have stored: "findById valid_id postId (posts (fst (delete_comment valid_id st userId postId commentId)))
                  = Inr (Some (p\<lparr>comments := ?cut\<rparr>))"
    using found delete_comment_allowed [OF found findc allowed]
    by (simp add: Let_def findById_save_doc findById_post_id)
  have sent: "snd (delete_comment valid_id st userId postId commentId)
                  = \<lparr>status = 200, body = CommentList (populate_comments st ?cut)\<rparr>"
    using delete_comment_allowed [OF found findc allowed]
    by (simp add: Let_def respond_def)
  from short at before stored sent
  show "\<exists>i<length (comments p). comments p ! i = c
              \<and> (\<forall>j<i. comment_id (comments p ! j) \<noteq> commentId)
              \<and> findById valid_id postId (posts (fst (delete_comment valid_id st userId postId commentId)))
                  = Inr (Some (p\<lparr>comments := take i (comments p) @ drop (Suc i) (comments p)\<rparr>))
              \<and> snd (delete_comment valid_id st userId postId commentId)
                  = \<lparr>status = 200,
                     body = CommentList (populate_comments st
                              (take i (comments p) @ drop (Suc i) (comments p)))\<rparr>"
    unfolding cut by blast
next
  fix u
  assume "comment_user c \<noteq> userId \<and> findUserById userId (users st) = Some u
                \<and> role u \<noteq> ''root''"
  then show "delete_comment valid_id st userId postId commentId
              = (st, \<lparr>status = 401, body = Msg ''You are not authorized to delete this comment''\<rparr>)"
    using delete_comment_refused [OF found findc, of userId u] by (simp add: respond_def)
next
  assume "comment_user c \<noteq> userId \<and> findUserById userId (users st) = None"
  then show "delete_comment valid_id st userId postId commentId
              = (st, \<lparr>status = 500, body = Msg ''Server error''\<rparr>)"
    using delete_comment_no_user [OF found findc, of userId]
    by (simp add: respond_def server_error_def)
qed


theorem delete_comment_authorization_witness:
  "findById ex_valid_id ''000000000000000000000001'' (posts ex_store) = Inr (Some ex_post)
   \<and> find (\<lambda>c. comment_id c = ''c1'') (comments ex_post) = Some ex_comment
   \<and> comment_user ex_comment = ''bob''
   \<and> snd (delete_comment ex_valid_id ex_store ''bob'' ''000000000000000000000001'' ''c1'') = \<lparr>status = 200, body = CommentList []\<rparr>
   \<and> findUserById ''alice'' (users ex_store) = Some \<lparr>user_id = ''alice'', role = ''user''\<rparr>
   \<and> delete_comment ex_valid_id ex_store ''alice'' ''000000000000000000000001'' ''c1''
       = (ex_store, \<lparr>status = 401, body = Msg ''You are not authorized to delete this comment''\<rparr>)"
proof -
  have c: "find (\<lambda>c. comment_id c = ''c1'') (comments ex_post) = Some ex_comment"
    by (simp add: ex_defs)
  have cs: "comments ex_post = [ex_comment]" by (simp add: ex_post_def)
  have b: "comment_user ex_comment = ''bob''" by (simp add: ex_comment_def)
  have a: "findUserById ''alice'' (users ex_store) = Some \<lparr>user_id = ''alice'', role = ''user''\<rparr>"
    by (simp add: findUserById_def ex_store_def)
  from delete_comment_authorization [OF ex_found c, of "''bob''"] b
  have one: "snd (delete_comment ex_valid_id ex_store ''bob'' ''000000000000000000000001'' ''c1'')
               = \<lparr>status = 200, body = CommentList []\<rparr>"
    unfolding cs by (auto simp: populate_comments_def)
  from delete_comment_authorization [OF ex_found c, of "''alice''"] a b
  have two: "delete_comment ex_valid_id ex_store ''alice'' ''000000000000000000000001'' ''c1''
       = (ex_store, \<lparr>status = 401, body = Msg ''You are not authorized to delete this comment''\<rparr>)"
    by simp
  from ex_found c b one a two show ?thesis by blast
qed

text \<open>
  The check of C1 on the post's owner fails both ways: alice owns the post and is refused,
  bob neither owns the post nor has the role \<open>root\<close> and deletes his comment.
\<close>

theorem delete_comment_owner_counterexample:
  "findById ex_valid_id ''000000000000000000000001'' (posts ex_store) = Inr (Some ex_post)
   \<and> comments ex_post = [ex_comment] \<and> comment_id ex_comment = ''c1''
   \<and> user ex_post = ''alice''
   \<and> findUserById ''alice'' (users ex_store) = Some \<lparr>user_id = ''alice'', role = ''user''\<rparr>
   \<and> delete_comment ex_valid_id ex_store ''alice'' ''000000000000000000000001'' ''c1''
       = (ex_store, \<lparr>status = 401, body = Msg ''You are not authorized to delete this comment''\<rparr>)
   \<and> findUserById ''bob'' (users ex_store) = Some \<lparr>user_id = ''bob'', role = ''user''\<rparr>
   \<and> snd (delete_comment ex_valid_id ex_store ''bob'' ''000000000000000000000001'' ''c1'') = \<lparr>status = 200, body = CommentList []\<rparr>
   \<and> findById ex_valid_id ''000000000000000000000001'' (posts (fst (delete_comment ex_valid_id ex_store ''bob'' ''000000000000000000000001'' ''c1'')))
       = Inr (Some (ex_post\<lparr>comments := []\<rparr>))"
  by (simp add: delete_comment_def ex_defs eval_defs)

text \<open>
  C9. For every existing post, GET /api/posts/:postId stores the post with its views field
  incremented by exactly 1 and responds 200 with it; every other field of the stored post
  (title, description, images, likes, saves, comments among them) is as before, and so is
  every other post.
\<close>

theorem get_post_increments_views:
  assumes found: "findById valid_id postId (posts st) = Inr (Some p)"
  shows "(\<exists>p'. findById valid_id postId (posts (fst (get_post valid_id st postId))) = Inr (Some p')
            \<and> snd (get_post valid_id st postId)
                = \<lparr>status = 200,
                   body = PostPopulated p' (findUserById (user p) (users st))
                            (populate_comments st (comments p))\<rparr>
            \<and> p' = p\<lparr>views := views p + 1\<rparr>
            \<and> views p' = views p + 1
            \<and> title p' = title p \<and> description p' = description p \<and> images p' = images p
            \<and> likes p' = likes p \<and> saves p' = saves p \<and> comments p' = comments p
            \<and> post_id p' = post_id p \<and> user p' = user p \<and> liveDemo p' = liveDemo p
            \<and> sourceCode p' = sourceCode p \<and> techStack p' = techStack p
            \<and> createdAt p' = createdAt p)
       \<and> (\<forall>q. q \<noteq> postId \<longrightarrow>
             findById valid_id q (posts (fst (get_post valid_id st postId))) = findById valid_id q (posts st))
       \<and> users (fst (get_post valid_id st postId)) = users st
       \<and> followers (fst (get_post valid_id st postId)) = followers st
       \<and> notified (fst (get_post valid_id st postId)) = notified st"
proof -
  let ?p' = "p\<lparr>views := views p + 1\<rparr>"
  have id: "post_id ?p' = postId" using findById_post_id [OF found] by simp
  have stored: "findById valid_id postId (posts (fst (get_post valid_id st postId))) = Inr (Some ?p')"
    using get_post_found [OF found] findById_save_doc [OF found id] by simp
  have sent: "snd (get_post valid_id st postId)
                = \<lparr>status = 200,
                   body = PostPopulated ?p' (findUserById (user p) (users st))
                            (populate_comments st (comments p))\<rparr>"
    using get_post_found [OF found] by (simp add: respond_def)
  have others: "findById valid_id q (posts (fst (get_post valid_id st postId))) = findById valid_id q (posts st)"
    if "q \<noteq> postId" for q
    using get_post_found [OF found] findById_save_doc_other [where p' = "?p'" and qid = q and ps = "posts st"] id that
    by simp
  have rest: "users (fst (get_post valid_id st postId)) = users st
       \<and> followers (fst (get_post valid_id st postId)) = followers st
       \<and> notified (fst (get_post valid_id st postId)) = notified st"
    using get_post_found [OF found] by simp
  from stored sent others rest show ?thesis by simp
qed

theorem get_post_increments_views_witness:
  "findById ex_valid_id ''000000000000000000000001'' (posts ex_store) = Inr (Some ex_post)
   \<and> views ex_post = 3
   \<and> findById ex_valid_id ''000000000000000000000001'' (posts (fst (get_post ex_valid_id ex_store ''000000000000000000000001''))) = Inr (Some (ex_post\<lparr>views := 4\<rparr>))
   \<and> findById ex_valid_id ''000000000000000000000002'' (posts (fst (get_post ex_valid_id ex_store ''000000000000000000000001''))) = Inr (Some ex_post2)"
proof -
  have v: "views ex_post = 3" by (simp add: ex_post_def)
  have q: "findById ex_valid_id ''000000000000000000000002'' (posts ex_store) = Inr (Some ex_post2)"
    by (simp add: findById_def ex_defs)
  from get_post_increments_views [OF ex_found] v q
  have "findById ex_valid_id ''000000000000000000000001'' (posts (fst (get_post ex_valid_id ex_store ''000000000000000000000001''))) = Inr (Some (ex_post\<lparr>views := 4\<rparr>))"
    and "findById ex_valid_id ''000000000000000000000002'' (posts (fst (get_post ex_valid_id ex_store ''000000000000000000000001''))) = Inr (Some ex_post2)"
    by simp_all
  with ex_found v show ?thesis by blast
qed

text \<open>
  C10. A like, an unlike, an added comment and a deleted comment call their notification
  helper (\<open>newLikeNotification\<close>, \<open>removeLikeNotification\<close>, \<open>newCommentNotification\<close>,
  \<open>removeCommentNotification\<close>) once if the post's owner is not the acting user, and make
  no notification call at all if the owner is the acting user.
\<close>

theorem notification_iff_not_owner:
  assumes found: "findById valid_id postId (posts st) = Inr (Some p)"
  shows "((\<forall>l\<in>set (likes p). like_user l \<noteq> userId) \<longrightarrow>
            notified (fst (put_like valid_id st userId postId))
              = notified st @ (if user p \<noteq> userId then [NewLike (user p) userId postId] else []))
       \<and> ((\<exists>l\<in>set (likes p). like_user l = userId) \<longrightarrow>
            notified (fst (put_like valid_id st userId postId))
              = notified st @ (if user p \<noteq> userId then [RemoveLike (user p) userId postId] else []))
       \<and> (\<forall>txt. 1 \<le> length txt \<longrightarrow>
            notified (fst (post_comment valid_id st userId postId (Some txt) new_id now))
              = notified st
                  @ (if user p \<noteq> userId then [NewComment (user p) userId postId new_id txt] else []))
       \<and> (\<forall>c. find (\<lambda>c. comment_id c = commentId) (comments p) = Some c
                \<and> (comment_user c = userId
                     \<or> (\<exists>u. findUserById userId (users st) = Some u \<and> role u = ''root'')) \<longrightarrow>
            notified (fst (delete_comment valid_id st userId postId commentId))
              = notified st
                  @ (if user p \<noteq> userId then [RemoveComment (user p) userId postId commentId]
                     else []))"
proof (intro conjI impI allI)
  assume "\<forall>l\<in>set (likes p). like_user l \<noteq> userId"
  from put_like_absent [OF found this]
  show "notified (fst (put_like valid_id st userId postId))
              = notified st @ (if user p \<noteq> userId then [NewLike (user p) userId postId] else [])"
    by (simp add: Let_def)
next
  assume "\<exists>l\<in>set (likes p). like_user l = userId"
  from put_like_present [OF found this]
  show "notified (fst (put_like valid_id st userId postId))
              = notified st @ (if user p \<noteq> userId then [RemoveLike (user p) userId postId] else [])"
    by (simp add: Let_def)
next
  fix "txt" :: string
  assume "1 \<le> length txt"
  from post_comment_found [OF found this, of userId new_id now]
  show "notified (fst (post_comment valid_id st userId postId (Some txt) new_id now))
              = notified st
                  @ (if user p \<noteq> userId then [NewComment (user p) userId postId new_id txt] else [])"
    by (simp add: Let_def)
next
  fix c
  assume a: "find (\<lambda>c. comment_id c = commentId) (comments p) = Some c
                \<and> (comment_user c = userId
                     \<or> (\<exists>u. findUserById userId (users st) = Some u \<and> role u = ''root''))"
  then have findc: "find (\<lambda>c. comment_id c = commentId) (comments p) = Some c"
    and allowed: "comment_user c = userId
                     \<or> (\<exists>u. findUserById userId (users st) = Some u \<and> role u = ''root'')"
    by blast+
  from findc have "comment_id c = commentId" by (auto simp: find_Some_iff)
  with delete_comment_allowed [OF found findc allowed]
  show "notified (fst (delete_comment valid_id st userId postId commentId))
              = notified st
                  @ (if user p \<noteq> userId then [RemoveComment (user p) userId postId commentId]
                     else [])"
    by (simp add: Let_def)
qed

theorem notification_iff_not_owner_witness:
  "findById ex_valid_id ''000000000000000000000001'' (posts ex_store) = Inr (Some ex_post)
   \<and> notified (fst (put_like ex_valid_id ex_store ''bob'' ''000000000000000000000001'')) = [RemoveLike ''alice'' ''bob'' ''000000000000000000000001'']
   \<and> notified (fst (put_like ex_valid_id ex_store ''alice'' ''000000000000000000000001'')) = []
   \<and> notified (fst (put_like ex_valid_id ex_store ''carol'' ''000000000000000000000001'')) = [NewLike ''alice'' ''carol'' ''000000000000000000000001'']
   \<and> notified (fst (post_comment ex_valid_id ex_store ''bob'' ''000000000000000000000001'' (Some ''hello'') ''c2'' 30))
       = [NewComment ''alice'' ''bob'' ''000000000000000000000001'' ''c2'' ''hello'']
   \<and> notified (fst (post_comment ex_valid_id ex_store ''alice'' ''000000000000000000000001'' (Some ''hello'') ''c2'' 30)) = []
   \<and> notified (fst (delete_comment ex_valid_id ex_store ''bob'' ''000000000000000000000001'' ''c1''))
       = [RemoveComment ''alice'' ''bob'' ''000000000000000000000001'' ''c1'']"
proof -
  have l: "likes ex_post = [\<lparr>like_user = ''alice''\<rparr>, \<lparr>like_user = ''bob''\<rparr>]"
    by (simp add: ex_post_def)
  have o: "user ex_post = ''alice''" by (simp add: ex_post_def)
  have n: "notified ex_store = []" by (simp add: ex_store_def)
  have c: "find (\<lambda>c. comment_id c = ''c1'') (comments ex_post) = Some ex_comment"
    by (simp add: ex_defs)
  have b: "comment_user ex_comment = ''bob''" by (simp add: ex_comment_def)
  from notification_iff_not_owner [OF ex_found, of "''bob''" "''c2''" 30 "''c1''"] c b
  have bob: "notified (fst (put_like ex_valid_id ex_store ''bob'' ''000000000000000000000001'')) = [RemoveLike ''alice'' ''bob'' ''000000000000000000000001'']"
    "notified (fst (post_comment ex_valid_id ex_store ''bob'' ''000000000000000000000001'' (Some ''hello'') ''c2'' 30))
       = [NewComment ''alice'' ''bob'' ''000000000000000000000001'' ''c2'' ''hello'']"
    "notified (fst (delete_comment ex_valid_id ex_store ''bob'' ''000000000000000000000001'' ''c1''))
       = [RemoveComment ''alice'' ''bob'' ''000000000000000000000001'' ''c1'']"
    unfolding l o n by simp_all
  from notification_iff_not_owner [OF ex_found, of "''alice''" "''c2''" 30 "''c1''"]
  have alice: "notified (fst (put_like ex_valid_id ex_store ''alice'' ''000000000000000000000001'')) = []"
    "notified (fst (post_comment ex_valid_id ex_store ''alice'' ''000000000000000000000001'' (Some ''hello'') ''c2'' 30)) = []"
    unfolding l o n by simp_all
  from notification_iff_not_owner [OF ex_found, of "''carol''" "''c2''" 30 "''c1''"]
  have carol: "notified (fst (put_like ex_valid_id ex_store ''carol'' ''000000000000000000000001'')) = [NewLike ''alice'' ''carol'' ''000000000000000000000001'']"
    unfolding l o n by simp
  from ex_found bob alice carol show ?thesis by blast
qed

text \<open>
  C7. Validation failures respond 400 and leave the store unchanged: POST /api/posts with
  fewer than one uploaded file responds 400 (\<open>Atleast one image is required\<close>) and creates
  no post; POST /api/posts/comment/:postId with a text of length less than 1 responds 400
  (\<open>Comment must be atleast 1 character long\<close>) and adds no comment.
\<close>

theorem validation_failure_400:
  "(length files < 1 \<longrightarrow>
      create_post json_parse st userId b files new_id now
        = (st, \<lparr>status = 400, body = Msg ''Atleast one image is required''\<rparr>))
   \<and> (length t < 1 \<longrightarrow>
      post_comment valid_id st userId postId (Some t) cid date
        = (st, \<lparr>status = 400, body = Msg ''Comment must be atleast 1 character long''\<rparr>))"
  by (simp add: create_post_def post_comment_def respond_def)

theorem validation_failure_400_witness:
  "length ([] :: upload list) < 1 \<and> length '''' < 1
   \<and> create_post (\<lambda>s. Some []) ex_store ''bob'' ex_body [] ''000000000000000000000003'' 30
        = (ex_store, \<lparr>status = 400, body = Msg ''Atleast one image is required''\<rparr>)
   \<and> post_comment ex_valid_id ex_store ''bob'' ''000000000000000000000001'' (Some '''') ''c2'' 30
        = (ex_store, \<lparr>status = 400, body = Msg ''Comment must be atleast 1 character long''\<rparr>)"
  using validation_failure_400 [where files = "[]" and json_parse = "\<lambda>s. Some []"
      and st = ex_store and userId = "''bob''" and b = ex_body and new_id = "''000000000000000000000003''" and now = 30
      and t = "''''" and postId = "''000000000000000000000001''" and cid = "''c2''" and date = 30]
  by simp

text \<open>
  C8, as the handler has it. For every existing post, DELETE /api/posts/:postId removes the
  post and responds 200 exactly when the requester is the post's owner or has the role
  \<open>root\<close>; the other posts stay. For any other requester the store is unchanged: the
  response is 401 when the requester has a user document, and 500 when the requester has
  none, since the role is then read on \<open>null\<close>.
\<close>

theorem delete_post_authorization:
  assumes found: "findById valid_id postId (posts st) = Inr (Some p)"
  shows "((user p = userId
            \<or> (\<exists>u. findUserById userId (users st) = Some u \<and> role u = ''root'')) \<longrightarrow>
          delete_post valid_id st userId postId
            = (st\<lparr>posts := remove_doc p (posts st)\<rparr>, \<lparr>status = 200, body = Msg ''Post deleted''\<rparr>)
          \<and> findById valid_id postId (posts (fst (delete_post valid_id st userId postId))) = Inr None
          \<and> (\<forall>q. q \<noteq> postId \<longrightarrow>
                findById valid_id q (posts (fst (delete_post valid_id st userId postId))) = findById valid_id q (posts st)))
       \<and> (\<forall>u. user p \<noteq> userId \<and> findUserById userId (users st) = Some u
                \<and> role u \<noteq> ''root'' \<longrightarrow>
            delete_post valid_id st userId postId
              = (st, \<lparr>status = 401, body = Msg ''You are not authorized to delete this post''\<rparr>))
       \<and> (user p \<noteq> userId \<and> findUserById userId (users st) = None \<longrightarrow>
            delete_post valid_id st userId postId
              = (st, \<lparr>status = 500, body = Msg ''Server error''\<rparr>))
       \<and> (status (snd (delete_post valid_id st userId postId)) = 200 \<longleftrightarrow>
            (user p = userId
              \<or> (\<exists>u. findUserById userId (users st) = Some u \<and> role u = ''root'')))
       \<and> (\<not> (user p = userId
              \<or> (\<exists>u. findUserById userId (users st) = Some u \<and> role u = ''root'')) \<longrightarrow>
            fst (delete_post valid_id st userId postId) = st)"
proof -
  let ?allowed = "user p = userId
            \<or> (\<exists>u. findUserById userId (users st) = Some u \<and> role u = ''root'')"
  have id: "post_id p = postId" by (rule findById_post_id [OF found])
  have yes: "delete_post valid_id st userId postId
            = (st\<lparr>posts := remove_doc p (posts st)\<rparr>, \<lparr>status = 200, body = Msg ''Post deleted''\<rparr>)
          \<and> findById valid_id postId (posts (fst (delete_post valid_id st userId postId))) = Inr None
          \<and> (\<forall>q. q \<noteq> postId \<longrightarrow>
                findById valid_id q (posts (fst (delete_post valid_id st userId postId))) = findById valid_id q (posts st))"
    if ?allowed
    using delete_post_allowed [OF found that] findById_valid [OF found]
      findById_remove_doc [where p = p and ps = "posts st" and valid_id = valid_id]
      findById_remove_doc_other [where p = p and ps = "posts st" and valid_id = valid_id] id
    by (simp add: respond_def)
  have no: "delete_post valid_id st userId postId
              = (st, \<lparr>status = 401, body = Msg ''You are not authorized to delete this post''\<rparr>)"
    if "user p \<noteq> userId \<and> findUserById userId (users st) = Some u \<and> role u \<noteq> ''root''" for u
    using delete_post_refused [OF found, of userId u] that by (simp add: respond_def)
  have err: "delete_post valid_id st userId postId
              = (st, \<lparr>status = 500, body = Msg ''Server error''\<rparr>)"
    if "user p \<noteq> userId \<and> findUserById userId (users st) = None"
    using delete_post_no_user [OF found, of userId] that
    by (simp add: server_error_def respond_def)
  have iff: "status (snd (delete_post valid_id st userId postId)) = 200 \<longleftrightarrow> ?allowed"
  proof (cases ?allowed)
    case True
    with yes show ?thesis by simp
  next
    case False
    then have other: "user p \<noteq> userId" by blast
    show ?thesis
    proof (cases "findUserById userId (users st)")
      case None
      with False other delete_post_no_user [OF found other None] show ?thesis
        by (simp add: server_error_def)
    next
      case (Some u)
      with False have "role u \<noteq> ''root''" by blast
      with no [of u] other Some False show ?thesis by simp
    qed
  qed
  have kept: "fst (delete_post valid_id st userId postId) = st" if "\<not> ?allowed"
  proof (cases "findUserById userId (users st)")
    case None
    with that delete_post_no_user [OF found _ None] show ?thesis by simp
  next
    case (Some u)
    with that have "user p \<noteq> userId \<and> findUserById userId (users st) = Some u \<and> role u \<noteq> ''root''"
      by blast
    from no [OF this] show ?thesis by simp
  qed
  from yes no err iff kept show ?thesis by blast
qed

theorem delete_post_authorization_witness:
  "findById ex_valid_id ''000000000000000000000001'' (posts ex_store) = Inr (Some ex_post)
   \<and> user ex_post = ''alice''
   \<and> findUserById ''carol'' (users ex_store) = Some \<lparr>user_id = ''carol'', role = ''root''\<rparr>
   \<and> findUserById ''bob'' (users ex_store) = Some \<lparr>user_id = ''bob'', role = ''user''\<rparr>
   \<and> findUserById ''dave'' (users ex_store) = None
   \<and> delete_post ex_valid_id ex_store ''dave'' ''000000000000000000000001''
       = (ex_store, \<lparr>status = 500, body = Msg ''Server error''\<rparr>)
   \<and> status (snd (delete_post ex_valid_id ex_store ''alice'' ''000000000000000000000001'')) = 200
   \<and> findById ex_valid_id ''000000000000000000000001'' (posts (fst (delete_post ex_valid_id ex_store ''carol'' ''000000000000000000000001''))) = Inr None
   \<and> delete_post ex_valid_id ex_store ''bob'' ''000000000000000000000001''
       = (ex_store, \<lparr>status = 401, body = Msg ''You are not authorized to delete this post''\<rparr>)"
proof -
  have o: "user ex_post = ''alice''" by (simp add: ex_post_def)
  have c: "findUserById ''carol'' (users ex_store) = Some \<lparr>user_id = ''carol'', role = ''root''\<rparr>"
    by (simp add: findUserById_def ex_store_def)
  have b: "findUserById ''bob'' (users ex_store) = Some \<lparr>user_id = ''bob'', role = ''user''\<rparr>"
    by (simp add: findUserById_def ex_store_def)
  from delete_post_authorization [OF ex_found, of "''alice''"] o
  have one: "status (snd (delete_post ex_valid_id ex_store ''alice'' ''000000000000000000000001'')) = 200" by blast
  from c have r: "\<exists>u. findUserById ''carol'' (users ex_store) = Some u \<and> role u = ''root''"
    by simp
  from delete_post_authorization [OF ex_found, of "''carol''"] r
  have two: "findById ex_valid_id ''000000000000000000000001'' (posts (fst (delete_post ex_valid_id ex_store ''carol'' ''000000000000000000000001''))) = Inr None" by blast
  from delete_post_authorization [OF ex_found, of "''bob''"] o b
  have three: "delete_post ex_valid_id ex_store ''bob'' ''000000000000000000000001''
       = (ex_store, \<lparr>status = 401, body = Msg ''You are not authorized to delete this post''\<rparr>)"
    by simp
  have d: "findUserById ''dave'' (users ex_store) = None"
    by (simp add: findUserById_def ex_store_def)
  from delete_post_authorization [OF ex_found, of "''dave''"] o d
  have four: "delete_post ex_valid_id ex_store ''dave'' ''000000000000000000000001''
       = (ex_store, \<lparr>status = 500, body = Msg ''Server error''\<rparr>)"
    by simp
  from ex_found o c b d one two three four show ?thesis by blast
qed

text \<open>
  A requester who passed the authentication but has no user document, and does not own the
  post, gets 500 and not 401.
\<close>

theorem delete_post_no_user_counterexample:
  "findById ex_valid_id ''000000000000000000000001'' (posts ex_store) = Inr (Some ex_post)
   \<and> user ex_post = ''alice''
   \<and> findUserById ''dave'' (users ex_store) = None
   \<and> delete_post ex_valid_id ex_store ''dave'' ''000000000000000000000001''
       = (ex_store, \<lparr>status = 500, body = Msg ''Server error''\<rparr>)"
  by (simp add: delete_post_def ex_defs eval_defs)

text \<open>
  C6, as the handlers have it. For every route with a :postId (get by id, delete, like
  toggle, save toggle, get likes, add comment with a text of at least one character, delete
  comment), if the :postId is an identifier that the store's cast accepts and no post has
  it, the response is 404 with the message \<open>Post not found\<close>. If the cast refuses the
  :postId the lookup is rejected and the response is 500. Add comment checks the text
  before it looks the post up, so with an empty text it answers 400 whatever the :postId.
  In each of these cases the store is unchanged.
\<close>

theorem missing_post_not_found:
  assumes missing: "findById valid_id postId (posts st) = Inr None"
  shows "valid_id postId
       \<and> get_post valid_id st postId = (st, \<lparr>status = 404, body = Msg ''Post not found''\<rparr>)
       \<and> delete_post valid_id st userId postId
             = (st, \<lparr>status = 404, body = Msg ''Post not found''\<rparr>)
       \<and> put_like valid_id st userId postId
             = (st, \<lparr>status = 404, body = Msg ''Post not found''\<rparr>)
       \<and> put_save valid_id st userId postId
             = (st, \<lparr>status = 404, body = Msg ''Post not found''\<rparr>)
       \<and> get_likes valid_id st postId = (st, \<lparr>status = 404, body = Msg ''Post not found''\<rparr>)
       \<and> (\<forall>t. 1 \<le> length t \<longrightarrow>
             post_comment valid_id st userId postId (Some t) new_id now
               = (st, \<lparr>status = 404, body = Msg ''Post not found''\<rparr>))
       \<and> delete_comment valid_id st userId postId commentId
             = (st, \<lparr>status = 404, body = Msg ''Post not found''\<rparr>)
       \<and> (\<forall>pid. \<not> valid_id pid \<longrightarrow>
             get_post valid_id st pid = (st, \<lparr>status = 500, body = Msg ''Server error''\<rparr>)
             \<and> delete_post valid_id st userId pid
                 = (st, \<lparr>status = 500, body = Msg ''Server error''\<rparr>)
             \<and> put_like valid_id st userId pid
                 = (st, \<lparr>status = 500, body = Msg ''Server error''\<rparr>)
             \<and> put_save valid_id st userId pid
                 = (st, \<lparr>status = 500, body = Msg ''Server error''\<rparr>)
             \<and> get_likes valid_id st pid = (st, \<lparr>status = 500, body = Msg ''Server error''\<rparr>)
             \<and> (\<forall>t. 1 \<le> length t \<longrightarrow>
                   post_comment valid_id st userId pid (Some t) new_id now
                     = (st, \<lparr>status = 500, body = Msg ''Server error''\<rparr>))
             \<and> delete_comment valid_id st userId pid commentId
                 = (st, \<lparr>status = 500, body = Msg ''Server error''\<rparr>))
       \<and> (\<forall>pid t. length t < 1 \<longrightarrow>
             post_comment valid_id st userId pid (Some t) new_id now
               = (st, \<lparr>status = 400, body = Msg ''Comment must be atleast 1 character long''\<rparr>))"
proof (intro conjI allI impI)
  show "valid_id postId" by (rule findById_valid [OF missing])
  show "get_post valid_id st postId = (st, \<lparr>status = 404, body = Msg ''Post not found''\<rparr>)"
    using missing by (simp add: get_post_def post_not_found_def respond_def)
  show "delete_post valid_id st userId postId
          = (st, \<lparr>status = 404, body = Msg ''Post not found''\<rparr>)"
    using missing by (simp add: delete_post_def post_not_found_def respond_def)
  show "put_like valid_id st userId postId
          = (st, \<lparr>status = 404, body = Msg ''Post not found''\<rparr>)"
    using missing by (simp add: put_like_def post_not_found_def respond_def)
  show "put_save valid_id st userId postId
          = (st, \<lparr>status = 404, body = Msg ''Post not found''\<rparr>)"
    using missing by (simp add: put_save_def post_not_found_def respond_def)
  show "get_likes valid_id st postId = (st, \<lparr>status = 404, body = Msg ''Post not found''\<rparr>)"
    using missing by (simp add: get_likes_def post_not_found_def respond_def)
  show "delete_comment valid_id st userId postId commentId
          = (st, \<lparr>status = 404, body = Msg ''Post not found''\<rparr>)"
    using missing by (simp add: delete_comment_def post_not_found_def respond_def)
  show "post_comment valid_id st userId postId (Some t) new_id now
          = (st, \<lparr>status = 404, body = Msg ''Post not found''\<rparr>)"
    if "1 \<le> length t" for t
    using missing that
    by (cases t) (simp_all add: post_comment_def post_not_found_def respond_def)
  show "post_comment valid_id st userId pid (Some t) new_id now
          = (st, \<lparr>status = 400, body = Msg ''Comment must be atleast 1 character long''\<rparr>)"
    if "length t < 1" for pid t
    using that by (simp add: post_comment_def respond_def)
next
  fix pid
  assume bad: "\<not> valid_id pid"
  then have cast: "findById valid_id pid (posts st) = Inl CastError"
    by (simp add: findById_def)
  show "get_post valid_id st pid = (st, \<lparr>status = 500, body = Msg ''Server error''\<rparr>)"
    using cast by (simp add: get_post_def server_error_def respond_def)
  show "delete_post valid_id st userId pid = (st, \<lparr>status = 500, body = Msg ''Server error''\<rparr>)"
    using cast by (simp add: delete_post_def server_error_def respond_def)
  show "put_like valid_id st userId pid = (st, \<lparr>status = 500, body = Msg ''Server error''\<rparr>)"
    using cast by (simp add: put_like_def server_error_def respond_def)
  show "put_save valid_id st userId pid = (st, \<lparr>status = 500, body = Msg ''Server error''\<rparr>)"
    using cast by (simp add: put_save_def server_error_def respond_def)
  show "get_likes valid_id st pid = (st, \<lparr>status = 500, body = Msg ''Server error''\<rparr>)"
    using cast by (simp add: get_likes_def server_error_def respond_def)
  show "delete_comment valid_id st userId pid commentId
          = (st, \<lparr>status = 500, body = Msg ''Server error''\<rparr>)"
    using cast by (simp add: delete_comment_def server_error_def respond_def)
  show "post_comment valid_id st userId pid (Some t) new_id now
          = (st, \<lparr>status = 500, body = Msg ''Server error''\<rparr>)"
    if "1 \<le> length t" for t
    using cast that
    by (cases t) (simp_all add: post_comment_def server_error_def respond_def)
qed

theorem missing_post_not_found_witness:
  "findById ex_valid_id ''000000000000000000000009'' (posts ex_store) = Inr None
   \<and> get_post ex_valid_id ex_store ''000000000000000000000009''
       = (ex_store, \<lparr>status = 404, body = Msg ''Post not found''\<rparr>)
   \<and> put_like ex_valid_id ex_store ''bob'' ''000000000000000000000009''
       = (ex_store, \<lparr>status = 404, body = Msg ''Post not found''\<rparr>)
   \<and> post_comment ex_valid_id ex_store ''bob'' ''000000000000000000000009'' (Some ''hello'') ''c2'' 30
       = (ex_store, \<lparr>status = 404, body = Msg ''Post not found''\<rparr>)
   \<and> \<not> ex_valid_id ''not-an-id''
   \<and> delete_post ex_valid_id ex_store ''bob'' ''not-an-id''
       = (ex_store, \<lparr>status = 500, body = Msg ''Server error''\<rparr>)
   \<and> post_comment ex_valid_id ex_store ''bob'' ''000000000000000000000001'' (Some '''') ''c2'' 30
       = (ex_store, \<lparr>status = 400, body = Msg ''Comment must be atleast 1 character long''\<rparr>)"
proof -
  have h: "findById ex_valid_id ''000000000000000000000009'' (posts ex_store) = Inr None"
    by (simp add: findById_def ex_defs)
  have bad: "\<not> ex_valid_id ''not-an-id''" by (simp add: ex_valid_id_def)
  note all = missing_post_not_found [OF h, of "''bob''" "''c2''" 30 "''c1''"]
  from all have one: "get_post ex_valid_id ex_store ''000000000000000000000009''
       = (ex_store, \<lparr>status = 404, body = Msg ''Post not found''\<rparr>)"
    and two: "put_like ex_valid_id ex_store ''bob'' ''000000000000000000000009''
       = (ex_store, \<lparr>status = 404, body = Msg ''Post not found''\<rparr>)"
    by blast+
  from all have three: "post_comment ex_valid_id ex_store ''bob'' ''000000000000000000000009''
         (Some ''hello'') ''c2'' 30
       = (ex_store, \<lparr>status = 404, body = Msg ''Post not found''\<rparr>)"
    by simp
  from all bad have four: "delete_post ex_valid_id ex_store ''bob'' ''not-an-id''
       = (ex_store, \<lparr>status = 500, body = Msg ''Server error''\<rparr>)"
    by blast
  from all have five: "post_comment ex_valid_id ex_store ''bob'' ''000000000000000000000001''
         (Some '''') ''c2'' 30
       = (ex_store, \<lparr>status = 400, body = Msg ''Comment must be atleast 1 character long''\<rparr>)"
    by simp
  from h one two three bad four five show ?thesis by blast
qed

text \<open>
  No post has the identifier, and the response is not 404: with an empty text add comment
  answers 400, and with a :postId that the cast refuses get by id answers 500.
\<close>

theorem missing_post_counterexample:
  "map post_id (posts ex_store) = [''000000000000000000000001'', ''000000000000000000000002'']
   \<and> findById ex_valid_id ''000000000000000000000009'' (posts ex_store) = Inr None
   \<and> post_comment ex_valid_id ex_store ''bob'' ''000000000000000000000009'' (Some '''') ''c2'' 30
       = (ex_store, \<lparr>status = 400, body = Msg ''Comment must be atleast 1 character long''\<rparr>)
   \<and> findById ex_valid_id ''not-an-id'' (posts ex_store) = Inl CastError
   \<and> get_post ex_valid_id ex_store ''not-an-id''
       = (ex_store, \<lparr>status = 500, body = Msg ''Server error''\<rparr>)"
  by (simp add: post_comment_def get_post_def ex_defs eval_defs)

text \<open>
  C5. For every page \<open>p \<ge> 1\<close> and limit \<open>l \<ge> 1\<close> read from the query (\<open>p = 1\<close> and
  \<open>l = 12\<close> when the parameter is absent or does not parse), with \<open>p * l\<close> below
  \<open>2 ^ 53\<close> so that the numbers of the language are exact, GET /api/posts responds 200
  with the posts in descending order of createdAt, after skipping \<open>(p - 1) * l\<close> of them
  and taking at most \<open>l\<close>, and with next equal to \<open>p + 1\<close> when \<open>p * l\<close> is strictly less
  than the number of posts and null otherwise. GET /api/posts/feed does the same over the
  posts of the users that the requester follows, counting only those posts.
\<close>

theorem pagination:
  assumes pg: "or_default (parseInt (page q)) 1 = p"
    and lm: "or_default (parseInt (limit q)) 12 = l"
    and p1: "1 \<le> p" and l1: "1 \<le> l" and exact: "p * l < 2 ^ 53"
  shows "get_posts st q =
           (st, \<lparr>status = 200,
                 body = Page (populate_page st
                                (take (nat l) (drop (nat ((p - 1) * l))
                                   (sort_createdAt_desc (posts st)))))
                             (if p * l < int (length (posts st)) then Some (p + 1) else None)\<rparr>)
       \<and> mset (sort_createdAt_desc (posts st)) = mset (posts st)
       \<and> sorted_wrt (\<lambda>a b. createdAt b \<le> createdAt a) (sort_createdAt_desc (posts st))
       \<and> (\<forall>fdoc. find (\<lambda>f. follower_user f = userId) (followers st) = Some fdoc \<longrightarrow>
            (\<exists>followed.
                followed = filter (\<lambda>x. user x \<in> following_user ` set (following fdoc)) (posts st)
              \<and> get_feed st userId q =
                  (st, \<lparr>status = 200,
                        body = Page (populate_page st
                                       (take (nat l) (drop (nat ((p - 1) * l))
                                          (sort_createdAt_desc followed))))
                                    (if p * l < int (length followed) then Some (p + 1) else None)\<rparr>)
              \<and> mset (sort_createdAt_desc followed) = mset followed
              \<and> sorted_wrt (\<lambda>a b. createdAt b \<le> createdAt a) (sort_createdAt_desc followed)))
       \<and> (page q = None \<or> parseInt (page q) = None \<longrightarrow> p = 1)
       \<and> (limit q = None \<or> parseInt (limit q) = None \<longrightarrow> l = 12)"
proof (intro conjI allI impI)
  show "get_posts st q =
           (st, \<lparr>status = 200,
                 body = Page (populate_page st
                                (take (nat l) (drop (nat ((p - 1) * l))
                                   (sort_createdAt_desc (posts st)))))
                             (if p * l < int (length (posts st)) then Some (p + 1) else None)\<rparr>)"
    using get_posts_in_range [OF pg lm p1 l1, of st] by (simp add: respond_def)
  show "mset (sort_createdAt_desc (posts st)) = mset (posts st)"
    by (rule sort_createdAt_desc_mset)
  show "sorted_wrt (\<lambda>a b. createdAt b \<le> createdAt a) (sort_createdAt_desc (posts st))"
    by (rule sort_createdAt_desc_sorted)
  show "p = 1" if "page q = None \<or> parseInt (page q) = None"
    using that pg by (auto simp: or_default_def parseInt_def)
  show "l = 12" if "limit q = None \<or> parseInt (limit q) = None"
    using that lm by (auto simp: or_default_def parseInt_def)
next
  fix fdoc
  assume f: "find (\<lambda>f. follower_user f = userId) (followers st) = Some fdoc"
  let ?followed = "filter (\<lambda>x. user x \<in> following_user ` set (following fdoc)) (posts st)"
  have "get_feed st userId q =
                  (st, \<lparr>status = 200,
                        body = Page (populate_page st
                                       (take (nat l) (drop (nat ((p - 1) * l))
                                          (sort_createdAt_desc ?followed))))
                                    (if p * l < int (length ?followed) then Some (p + 1) else None)\<rparr>)"
    using get_feed_in_range [OF pg lm p1 l1 f] by (simp add: respond_def)
  with sort_createdAt_desc_mset [of ?followed] sort_createdAt_desc_sorted [of ?followed]
  show "\<exists>followed.
                followed = filter (\<lambda>x. user x \<in> following_user ` set (following fdoc)) (posts st)
              \<and> get_feed st userId q =
                  (st, \<lparr>status = 200,
                        body = Page (populate_page st
                                       (take (nat l) (drop (nat ((p - 1) * l))
                                          (sort_createdAt_desc followed))))
                                    (if p * l < int (length followed) then Some (p + 1) else None)\<rparr>)
              \<and> mset (sort_createdAt_desc followed) = mset followed
              \<and> sorted_wrt (\<lambda>a b. createdAt b \<le> createdAt a) (sort_createdAt_desc followed)"
    by blast
qed

theorem pagination_witness:
  "or_default (parseInt (page ex_query2)) 1 = 2 \<and> or_default (parseInt (limit ex_query2)) 12 = 1
   \<and> (1::int) \<le> 2 \<and> (1::int) \<le> 1 \<and> (2::int) * 1 < 2 ^ 53
   \<and> get_posts ex_store ex_query2
       = (ex_store, \<lparr>status = 200,
                     body = Page [(ex_post, Some \<lparr>user_id = ''alice'', role = ''user''\<rparr>)] None\<rparr>)
   \<and> get_posts ex_store ex_query
       = (ex_store, \<lparr>status = 200,
                     body = Page [(ex_post2, Some \<lparr>user_id = ''bob'', role = ''user''\<rparr>)] (Some 2)\<rparr>)
   \<and> get_feed ex_store ''carol'' ex_query
       = (ex_store, \<lparr>status = 200,
                     body = Page [(ex_post, Some \<lparr>user_id = ''alice'', role = ''user''\<rparr>)] None\<rparr>)"
proof -
  have pg2: "or_default (parseInt (page ex_query2)) 1 = 2"
    and lm2: "or_default (parseInt (limit ex_query2)) 12 = 1"
    using ex_query2_parsed by simp_all
  have pg: "or_default (parseInt (page ex_query)) 1 = 1"
    and lm: "or_default (parseInt (limit ex_query)) 12 = 1"
    using ex_query_parsed by simp_all
  have srt: "sort_createdAt_desc (posts ex_store) = [ex_post2, ex_post]"
    by (simp add: sort_createdAt_desc_def ex_defs)
  have flw: "filter (\<lambda>x. user x = ''alice'') (posts ex_store) = [ex_post]"
    by (simp add: ex_defs)
  have one: "sort_createdAt_desc [ex_post] = [ex_post]"
    by (simp add: sort_createdAt_desc_def)
  have len: "length (posts ex_store) = 2" by (simp add: ex_store_def)
  have pop: "populate_page ex_store [ex_post2] = [(ex_post2, Some \<lparr>user_id = ''bob'', role = ''user''\<rparr>)]"
    "populate_page ex_store [ex_post] = [(ex_post, Some \<lparr>user_id = ''alice'', role = ''user''\<rparr>)]"
    by (simp_all add: populate_page_def populate_user_def findUserById_def ex_defs)
  from pagination [OF pg2 lm2, of ex_store "''carol''"]
  have second: "get_posts ex_store ex_query2
       = (ex_store, \<lparr>status = 200,
                     body = Page [(ex_post, Some \<lparr>user_id = ''alice'', role = ''user''\<rparr>)] None\<rparr>)"
    unfolding srt len by (simp add: pop)
  from pagination [OF pg lm, of ex_store "''carol''"] ex_follower
  have first: "get_posts ex_store ex_query
       = (ex_store, \<lparr>status = 200,
                     body = Page [(ex_post2, Some \<lparr>user_id = ''bob'', role = ''user''\<rparr>)] (Some 2)\<rparr>)"
    and feed: "get_feed ex_store ''carol'' ex_query
       = (ex_store, \<lparr>status = 200,
                     body = Page [(ex_post, Some \<lparr>user_id = ''alice'', role = ''user''\<rparr>)] None\<rparr>)"
    unfolding srt len by (simp_all add: pop flw one)
  from pg2 lm2 second first feed show ?thesis by simp
qed

end
